theory Spec2Isabelle
  imports Complex_Main "HOL-Library.Word"
begin

section \<open>Strings\<close>

text \<open>
  A JavaScript string is a sequence of UTF-16 code units. \<open>lit\<close> writes an ASCII literal
  as such a sequence. \<open>trim\<close> is \<^verbatim>\<open>String.prototype.trim\<close>: it removes the leading and
  the trailing code units that ECMAScript counts as WhiteSpace or LineTerminator (all of
  them lie in the Basic Multilingual Plane, so each is one code unit).
\<close>

type_synonym jsstring = "16 word list"

definition lit :: "string \<Rightarrow> jsstring" where
  "lit cs = map of_char cs"

definition isWhiteSpace :: "16 word \<Rightarrow> bool" where
  "isWhiteSpace c = (c \<in> set [0x0009, 0x000A, 0x000B, 0x000C, 0x000D, 0x0020, 0x00A0, 0x1680,
     0x2000, 0x2001, 0x2002, 0x2003, 0x2004, 0x2005, 0x2006, 0x2007, 0x2008, 0x2009, 0x200A,
     0x2028, 0x2029, 0x202F, 0x205F, 0x3000, 0xFEFF])"

definition trim :: "jsstring \<Rightarrow> jsstring" where
  "trim s = rev (dropWhile isWhiteSpace (rev (dropWhile isWhiteSpace s)))"

section \<open>Data model\<close>

text \<open>The chat message of the transcript log, \<^verbatim>\<open>{ role: 'user' | 'ai', content }\<close>.\<close>

datatype role = User | Ai

record message =
  role :: role
  content :: jsstring

text \<open>
  The objects of the browser and of the SDK the component holds in its refs.
  An audio context and the promise of a live session have an identity, a number: two
  objects created by different calls are different objects, also when a ref that held the
  first now holds the second.
  An audio context carries the \<^verbatim>\<open>state\<close> attribute \<^verbatim>\<open>stopSession\<close> reads.
  An audio buffer has a length in sample frames and a sample rate; the Web Audio API
  defines its \<^verbatim>\<open>duration\<close> as their quotient, in seconds.
  Times are JavaScript numbers; they are modelled as reals.
\<close>

datatype audio_context_state = Suspended | Running | Closed

datatype audio_context =
  AudioContext (ctx_id: nat) (sampleRate: nat) (ctx_state: audio_context_state)

datatype media_stream = MediaStream
datatype script_processor = ScriptProcessorNode
datatype media_stream_source = MediaStreamAudioSourceNode
datatype live_session = LiveSessionPromise (session_id: nat)
datatype ai_client = GoogleGenAI jsstring

record audio_buffer =
  buf_length :: nat
  buf_sampleRate :: nat

definition duration :: "audio_buffer \<Rightarrow> real" where
  "duration b = real (buf_length b) / real (buf_sampleRate b)"

text \<open>
  An \<^verbatim>\<open>AudioBufferSourceNode\<close> that has been started: the time given to
  \<^verbatim>\<open>source.start\<close>, the duration of its buffer, and whether \<^verbatim>\<open>source.stop()\<close> was called.
  The nodes created so far are kept in a list; a node is named by its index there.
\<close>

record audio_source =
  start_when :: real
  buffer_duration :: real
  stopped :: bool

definition end_time :: "audio_source \<Rightarrow> real" where
  "end_time n = start_when n + buffer_duration n"

text \<open>
  The calls the component makes on the browser and on the remote service, in the order in
  which they are made. The call that creates an audio context or opens a connection names
  the new object by the number of calls made before it; the call that closes one names
  the object it closes.
\<close>

datatype call =
    TrackStop
  | ScriptProcessorDisconnect
  | MediaStreamSourceDisconnect
  | AudioContextClose nat
  | SessionClose nat
  | NewAudioContext nat nat
  | ConnectLive nat
  | GetUserMedia
  | SendRealtimeInput nat
  | Alert

text \<open>
  The component never calls a method of the live session directly: it chains a callback
  on the promise of the session, \<^verbatim>\<open>sessionPromiseRef.current?.then(session => ...)\<close>.
  Such a callback runs later, after the function that chained it has returned, and only
  once the promise is fulfilled. The callbacks chained and not yet run are part of the
  state.
\<close>

datatype then_callback =
    SessionCloseCallback live_session
  | SendRealtimeInputCallback live_session

definition INPUT_SAMPLE_RATE :: nat where
  "INPUT_SAMPLE_RATE = 16000"

definition OUTPUT_SAMPLE_RATE :: nat where
  "OUTPUT_SAMPLE_RATE = 24000"

text \<open>
  The state of the \<^verbatim>\<open>App\<close> component: its React state, its refs, the value stored in
  \<^verbatim>\<open>localStorage\<close>, the source nodes created so far, the calls made so far and the
  callbacks chained on session promises that have not run yet.
  (The settings panel, the help dialogue and the text of the system prompt are left out.)
\<close>

record app =
  isApiKeyModalOpen :: bool
  messages :: "message list"
  isSessionActive :: bool
  statusMessage :: string
  isApiKeySet :: bool
  apiKeyInput :: jsstring
  currentUserTranscriptionRef :: jsstring
  currentTutorTranscriptionRef :: jsstring
  displayUserTranscription :: jsstring
  displayTutorTranscription :: jsstring
  aiRef :: "ai_client option"
  sessionPromiseRef :: "live_session option"
  streamRef :: "media_stream option"
  inputAudioContextRef :: "audio_context option"
  outputAudioContextRef :: "audio_context option"
  scriptProcessorRef :: "script_processor option"
  mediaStreamSourceRef :: "media_stream_source option"
  nextStartTimeRef :: real
  audioPlaybackSources :: "nat set"
  googleApiKey :: "jsstring option"
  sources :: "audio_source list"
  calls :: "call list"
  thenCallbacks :: "then_callback list"

text \<open>
  A server message, as far as \<^verbatim>\<open>onmessage\<close> reads it. \<^verbatim>\<open>serverContent\<close> may be absent.
  A transcription is its \<^verbatim>\<open>text\<close>. Each part of the model turn comes with the value
  \<^verbatim>\<open>audioContext.currentTime\<close> has when the loop reaches that part.
\<close>

record part =
  inlineData_data :: "jsstring option"

record server_content =
  inputTranscription :: "jsstring option"
  outputTranscription :: "jsstring option"
  turnComplete :: bool
  modelTurn_parts :: "(real \<times> part) list option"
  interrupted :: bool

type_synonym live_server_message = "server_content option"

text \<open>An asynchronous handler returns, or its promise rejects because an exception escaped.\<close>

datatype outcome = Returned | Rejected

section \<open>Credential\<close>

text \<open>
  \<^verbatim>\<open>initializeAi\<close> belongs to the service module; it is a parameter here:
  it gives a client or throws (\<open>None\<close>).
\<close>

definition mount :: "(jsstring \<Rightarrow> ai_client option) \<Rightarrow> jsstring option \<Rightarrow> app" where
  "mount initializeAi savedApiKey =
    (let s = \<lparr> isApiKeyModalOpen = False, messages = [], isSessionActive = False,
               statusMessage = ''Please set your API Key to begin.'', isApiKeySet = False,
               apiKeyInput = [], currentUserTranscriptionRef = [],
               currentTutorTranscriptionRef = [], displayUserTranscription = [],
               displayTutorTranscription = [], aiRef = None, sessionPromiseRef = None,
               streamRef = None, inputAudioContextRef = None, outputAudioContextRef = None,
               scriptProcessorRef = None, mediaStreamSourceRef = None, nextStartTimeRef = 0,
               audioPlaybackSources = {}, googleApiKey = savedApiKey, sources = [],
               calls = [], thenCallbacks = [] \<rparr>
     in case savedApiKey of
          None \<Rightarrow> s\<lparr>isApiKeyModalOpen := True\<rparr>
        | Some k \<Rightarrow>
            if k = [] then s\<lparr>isApiKeyModalOpen := True\<rparr>
            else (case initializeAi k of
                    Some client \<Rightarrow>
                      s\<lparr>aiRef := Some client, isApiKeySet := True,
                        statusMessage := ''API Key loaded. Click the microphone to start.''\<rparr>
                  | None \<Rightarrow>
                      s\<lparr>googleApiKey := None,
                        statusMessage := ''Invalid API Key found. Please set a new one.'',
                        isApiKeyModalOpen := True\<rparr>))"

definition setApiKeyInput :: "jsstring \<Rightarrow> app \<Rightarrow> app" where
  "setApiKeyInput v s = s\<lparr>apiKeyInput := v\<rparr>"

definition handleSaveApiKey :: "(jsstring \<Rightarrow> ai_client option) \<Rightarrow> app \<Rightarrow> app" where
  "handleSaveApiKey initializeAi s =
    (if trim (apiKeyInput s) \<noteq> [] then
       (case initializeAi (apiKeyInput s) of
          Some client \<Rightarrow>
            s\<lparr>aiRef := Some client, googleApiKey := Some (apiKeyInput s), isApiKeySet := True,
              isApiKeyModalOpen := False, apiKeyInput := [],
              statusMessage := ''API Key set! Ready to start a session.''\<rparr>
        | None \<Rightarrow> s\<lparr>calls := calls s @ [Alert]\<rparr>)
     else s\<lparr>calls := calls s @ [Alert]\<rparr>)"

section \<open>Stopping a session\<close>

definition stop_sources :: "nat set \<Rightarrow> audio_source list \<Rightarrow> audio_source list" where
  "stop_sources S ns =
     map (\<lambda>(i, n). if i \<in> S then n\<lparr>stopped := True\<rparr> else n) (enumerate 0 ns)"

text \<open>
  The steps of \<^verbatim>\<open>stopSession\<close>, in the order of the source. A track is stopped, a node
  disconnected and an audio context closed by a call made at once; the close of the
  session is only chained on the promise the ref holds, and the ref is set to null.
\<close>

definition stop_stream :: "app \<Rightarrow> app" where
  "stop_stream s =
     (if streamRef s \<noteq> None
      then s\<lparr>calls := calls s @ [TrackStop], streamRef := None\<rparr> else s)"

definition disconnect_scriptProcessor :: "app \<Rightarrow> app" where
  "disconnect_scriptProcessor s =
     (if scriptProcessorRef s \<noteq> None
      then s\<lparr>calls := calls s @ [ScriptProcessorDisconnect], scriptProcessorRef := None\<rparr>
      else s)"

definition disconnect_mediaStreamSource :: "app \<Rightarrow> app" where
  "disconnect_mediaStreamSource s =
     (if mediaStreamSourceRef s \<noteq> None
      then s\<lparr>calls := calls s @ [MediaStreamSourceDisconnect], mediaStreamSourceRef := None\<rparr>
      else s)"

definition close_inputAudioContext :: "app \<Rightarrow> app" where
  "close_inputAudioContext s =
     (case inputAudioContextRef s of
        None \<Rightarrow> s
      | Some c \<Rightarrow>
          if ctx_state c \<noteq> Closed
          then s\<lparr>calls := calls s @ [AudioContextClose (ctx_id c)],
                 inputAudioContextRef := None\<rparr>
          else s)"

definition close_session :: "app \<Rightarrow> app" where
  "close_session s =
     (case sessionPromiseRef s of
        None \<Rightarrow> s
      | Some sessionPromise \<Rightarrow>
          s\<lparr>thenCallbacks := thenCallbacks s @ [SessionCloseCallback sessionPromise]\<rparr>)
       \<lparr>sessionPromiseRef := None\<rparr>"

definition stop_playback :: "app \<Rightarrow> app" where
  "stop_playback s =
     s\<lparr>sources := stop_sources (audioPlaybackSources s) (sources s),
       audioPlaybackSources := {}\<rparr>"

definition close_outputAudioContext :: "app \<Rightarrow> app" where
  "close_outputAudioContext s =
     (case outputAudioContextRef s of
        None \<Rightarrow> s
      | Some c \<Rightarrow>
          if ctx_state c \<noteq> Closed
          then s\<lparr>calls := calls s @ [AudioContextClose (ctx_id c)],
                 outputAudioContextRef := None\<rparr>
          else s)"

definition stopSession :: "app \<Rightarrow> app" where
  "stopSession s =
     (close_outputAudioContext (stop_playback (close_session (close_inputAudioContext
        (disconnect_mediaStreamSource (disconnect_scriptProcessor (stop_stream s)))))))
       \<lparr>nextStartTimeRef := 0, isSessionActive := False,
        statusMessage := ''Session ended. Click the microphone to practice again.''\<rparr>"

section \<open>Starting a session\<close>

text \<open>
  What the environment does during \<^verbatim>\<open>handleNewSession\<close>: one of the two audio context
  constructors or \<^verbatim>\<open>connectToLiveSession\<close> throws, or none does.
\<close>

datatype start_env = InputContextThrows | OutputContextThrows | ConnectThrows | NoFailure

definition start_failed :: "app \<Rightarrow> app" where
  "start_failed s =
     s\<lparr>statusMessage := ''Failed to start session. Check your API key or connection.'',
       isSessionActive := False\<rparr>"

definition handleNewSession :: "start_env \<Rightarrow> app \<Rightarrow> app" where
  "handleNewSession env s0 =
    (let s1 = (if isSessionActive s0 then stopSession s0 else s0) in
     if aiRef s1 = None then
       s1\<lparr>statusMessage := ''API Key not set. Please set it in the settings.'',
          isApiKeyModalOpen := True\<rparr>
     else
       let s2 = s1\<lparr>messages := [], displayUserTranscription := [],
                   displayTutorTranscription := [], currentUserTranscriptionRef := [],
                   currentTutorTranscriptionRef := [],
                   statusMessage := ''Connecting to tutor...''\<rparr>
       in if env = InputContextThrows then start_failed s2
          else
            let s3 = s2\<lparr>inputAudioContextRef :=
                          Some (AudioContext (length (calls s2)) INPUT_SAMPLE_RATE Running),
                        calls := calls s2 @
                          [NewAudioContext (length (calls s2)) INPUT_SAMPLE_RATE]\<rparr>
            in if env = OutputContextThrows then start_failed s3
               else
                 let s4 = s3\<lparr>outputAudioContextRef :=
                               Some (AudioContext (length (calls s3)) OUTPUT_SAMPLE_RATE Running),
                             calls := calls s3 @
                               [NewAudioContext (length (calls s3)) OUTPUT_SAMPLE_RATE]\<rparr>
                 in if env = ConnectThrows then start_failed s4
                    else s4\<lparr>sessionPromiseRef :=
                              Some (LiveSessionPromise (length (calls s4))),
                            calls := calls s4 @ [ConnectLive (length (calls s4))]\<rparr>)"

section \<open>The callbacks of the live session\<close>

text \<open>
  \<^verbatim>\<open>onopen\<close> runs up to its \<^verbatim>\<open>await\<close> of \<^verbatim>\<open>getUserMedia\<close>; \<open>onopen_resume\<close> is
  its continuation, once the user has answered. Creating a node on the input context
  throws a TypeError when the ref is null; the \<^verbatim>\<open>catch\<close> block handles it as a denial.
\<close>

datatype user_media = Denied | Granted

definition onopen :: "app \<Rightarrow> app" where
  "onopen s =
     s\<lparr>isSessionActive := True,
       statusMessage := ''Connected! Start speaking when you are ready.'',
       calls := calls s @ [GetUserMedia]\<rparr>"

definition onopen_catch :: "app \<Rightarrow> app" where
  "onopen_catch s =
     stopSession (s\<lparr>statusMessage := ''Microphone access denied. Please allow permission.''\<rparr>)"

definition onopen_resume :: "user_media \<Rightarrow> app \<Rightarrow> app" where
  "onopen_resume answer s =
    (case answer of
       Denied \<Rightarrow> onopen_catch s
     | Granted \<Rightarrow>
         let s1 = s\<lparr>streamRef := Some MediaStream\<rparr> in
         if inputAudioContextRef s1 = None then onopen_catch s1
         else s1\<lparr>mediaStreamSourceRef := Some MediaStreamAudioSourceNode,
                 scriptProcessorRef := Some ScriptProcessorNode\<rparr>)"

definition onaudioprocess :: "app \<Rightarrow> app" where
  "onaudioprocess s =
     (case sessionPromiseRef s of
        None \<Rightarrow> s
      | Some sessionPromise \<Rightarrow>
          s\<lparr>thenCallbacks := thenCallbacks s @ [SendRealtimeInputCallback sessionPromise]\<rparr>)"

text \<open>
  A chained callback runs: the one at position \<open>i\<close> among those that wait (which promise
  is fulfilled first is up to the service). It makes its call on the session and is gone.
\<close>

definition run_callback :: "then_callback \<Rightarrow> call" where
  "run_callback cb =
     (case cb of
        SessionCloseCallback session \<Rightarrow> SessionClose (session_id session)
      | SendRealtimeInputCallback session \<Rightarrow> SendRealtimeInput (session_id session))"

definition run_then :: "nat \<Rightarrow> app \<Rightarrow> app" where
  "run_then i s =
     (if i < length (thenCallbacks s)
      then s\<lparr>calls := calls s @ [run_callback (thenCallbacks s ! i)],
             thenCallbacks := take i (thenCallbacks s) @ drop (Suc i) (thenCallbacks s)\<rparr>
      else s)"

text \<open>
  The body of the loop over the parts of a model turn. \<^verbatim>\<open>decodeAudioData (decode ...)\<close>
  belongs to the service module; it is the parameter \<open>dec\<close>, which gives the decoded
  buffer or throws (\<open>None\<close>). Reading \<^verbatim>\<open>currentTime\<close> of a null context throws as well.
  Nothing catches these exceptions: the promise of \<^verbatim>\<open>onmessage\<close> rejects, and what the
  handler has written by then stays written. An invocation of the handler is taken as a
  whole: no other callback runs while it awaits the decoder.
\<close>

definition play_part ::
  "(jsstring \<Rightarrow> audio_buffer option) \<Rightarrow> real \<times> part \<Rightarrow> app \<Rightarrow> outcome \<times> app" where
  "play_part dec tp s =
    (case inlineData_data (snd tp) of
       None \<Rightarrow> (Returned, s)
     | Some base64Audio \<Rightarrow>
         if base64Audio = [] then (Returned, s)
         else (case outputAudioContextRef s of
                 None \<Rightarrow> (Rejected, s)
               | Some audioContext \<Rightarrow>
                   let s1 = s\<lparr>nextStartTimeRef := max (nextStartTimeRef s) (fst tp)\<rparr> in
                   (case dec base64Audio of
                      None \<Rightarrow> (Rejected, s1)
                    | Some audioBuffer \<Rightarrow>
                        let source = length (sources s1) in
                        (Returned,
                         s1\<lparr>sources := sources s1 @
                               [\<lparr>start_when = nextStartTimeRef s1,
                                 buffer_duration = duration audioBuffer,
                                 stopped = False\<rparr>],
                            nextStartTimeRef := nextStartTimeRef s1 + duration audioBuffer,
                            audioPlaybackSources :=
                              insert source (audioPlaybackSources s1)\<rparr>))))"

fun play_parts ::
  "(jsstring \<Rightarrow> audio_buffer option) \<Rightarrow> (real \<times> part) list \<Rightarrow> app \<Rightarrow> outcome \<times> app" where
  "play_parts dec [] s = (Returned, s)"
| "play_parts dec (tp # tps) s =
     (case play_part dec tp s of
        (Rejected, s') \<Rightarrow> (Rejected, s')
      | (Returned, s') \<Rightarrow> play_parts dec tps s')"

definition on_inputTranscription :: "server_content \<Rightarrow> app \<Rightarrow> app" where
  "on_inputTranscription sc s =
    (case inputTranscription sc of
       None \<Rightarrow> s
     | Some text \<Rightarrow>
         s\<lparr>currentUserTranscriptionRef := currentUserTranscriptionRef s @ text,
           displayUserTranscription := currentUserTranscriptionRef s @ text\<rparr>)"

definition on_outputTranscription :: "server_content \<Rightarrow> app \<Rightarrow> app" where
  "on_outputTranscription sc s =
    (case outputTranscription sc of
       None \<Rightarrow> s
     | Some text \<Rightarrow>
         s\<lparr>currentTutorTranscriptionRef := currentTutorTranscriptionRef s @ text,
           displayTutorTranscription := currentTutorTranscriptionRef s @ text\<rparr>)"

definition on_turnComplete :: "server_content \<Rightarrow> app \<Rightarrow> app" where
  "on_turnComplete sc s =
    (if turnComplete sc then
       let userText = trim (currentUserTranscriptionRef s);
           tutorText = trim (currentTutorTranscriptionRef s);
           newMessages =
             (if userText \<noteq> [] then [\<lparr>role = User, content = userText\<rparr>] else []) @
             (if tutorText \<noteq> [] then [\<lparr>role = Ai, content = tutorText\<rparr>] else [])
       in (if newMessages \<noteq> [] then s\<lparr>messages := messages s @ newMessages\<rparr> else s)
            \<lparr>currentUserTranscriptionRef := [], currentTutorTranscriptionRef := [],
             displayUserTranscription := [], displayTutorTranscription := []\<rparr>
     else s)"

definition on_interrupted :: "server_content \<Rightarrow> app \<Rightarrow> app" where
  "on_interrupted sc s =
    (if interrupted sc then
       s\<lparr>sources := stop_sources (audioPlaybackSources s) (sources s),
         audioPlaybackSources := {}, nextStartTimeRef := 0\<rparr>
     else s)"

definition onmessage ::
  "(jsstring \<Rightarrow> audio_buffer option) \<Rightarrow> live_server_message \<Rightarrow> app \<Rightarrow> outcome \<times> app" where
  "onmessage dec msg s =
    (case msg of
       None \<Rightarrow> (Returned, s)
     | Some sc \<Rightarrow>
         let s1 = on_turnComplete sc (on_outputTranscription sc (on_inputTranscription sc s))
         in (case (case modelTurn_parts sc of
                     None \<Rightarrow> (Returned, s1)
                   | Some parts \<Rightarrow> play_parts dec parts s1) of
               (Rejected, s2) \<Rightarrow> (Rejected, s2)
             | (Returned, s2) \<Rightarrow> (Returned, on_interrupted sc s2)))"

definition onended :: "nat \<Rightarrow> app \<Rightarrow> app" where
  "onended source s = s\<lparr>audioPlaybackSources := audioPlaybackSources s - {source}\<rparr>"

definition onerror :: "app \<Rightarrow> app" where
  "onerror s = stopSession (s\<lparr>statusMessage := ''A connection error occurred. Please restart.''\<rparr>)"

definition onclose :: "app \<Rightarrow> app" where
  "onclose s = stopSession s"

definition handleMicButtonClick :: "start_env \<Rightarrow> app \<Rightarrow> app" where
  "handleMicButtonClick env s =
    (if \<not> isApiKeySet s then s\<lparr>isApiKeyModalOpen := True\<rparr>
     else if isSessionActive s then stopSession s
     else handleNewSession env s)"

text \<open>
  A run of the message handler over the messages the service sends, one after the other.
  A rejected invocation keeps the changes it made and does not stop later invocations.
\<close>

fun run_messages ::
  "(jsstring \<Rightarrow> audio_buffer option) \<Rightarrow> live_server_message list \<Rightarrow> app \<Rightarrow> app" where
  "run_messages dec [] s = s"
| "run_messages dec (m # ms) s = run_messages dec ms (snd (onmessage dec m s))"

text \<open>The states the component can be in: what the events of its life make of the mounted one.\<close>

inductive reachable :: "app \<Rightarrow> bool" where
  r_mount: "reachable (mount initializeAi savedApiKey)"
| r_input: "reachable s \<Longrightarrow> reachable (setApiKeyInput v s)"
| r_save: "reachable s \<Longrightarrow> reachable (handleSaveApiKey initializeAi s)"
| r_new: "reachable s \<Longrightarrow> reachable (handleNewSession env s)"
| r_mic: "reachable s \<Longrightarrow> reachable (handleMicButtonClick env s)"
| r_stop: "reachable s \<Longrightarrow> reachable (stopSession s)"
| r_open: "reachable s \<Longrightarrow> reachable (onopen s)"
| r_resume: "reachable s \<Longrightarrow> reachable (onopen_resume answer s)"
| r_audio: "reachable s \<Longrightarrow> reachable (onaudioprocess s)"
| r_then: "reachable s \<Longrightarrow> reachable (run_then i s)"
| r_message: "reachable s \<Longrightarrow> reachable (snd (onmessage dec msg s))"
| r_ended: "reachable s \<Longrightarrow> reachable (onended source s)"
| r_error: "reachable s \<Longrightarrow> reachable (onerror s)"
| r_close: "reachable s \<Longrightarrow> reachable (onclose s)"

section \<open>Notions used in the statements and proofs\<close>

subsection \<open>Parts of the state\<close>

text \<open>
  The conversation, the session with its resources, and the playback state, each as a
  tuple of fields, to say in one equation that an operation leaves them alone.
\<close>

definition transcript_of :: "app \<Rightarrow> message list \<times> jsstring \<times> jsstring \<times> jsstring \<times> jsstring" where
  "transcript_of s = (messages s, currentUserTranscriptionRef s, currentTutorTranscriptionRef s,
     displayUserTranscription s, displayTutorTranscription s)"

definition session_of :: "app \<Rightarrow>
    (bool \<times> live_session option \<times> media_stream option \<times> script_processor option \<times>
     media_stream_source option \<times> audio_context option \<times> audio_context option) \<times>
    (ai_client option \<times> string \<times> call list \<times> bool \<times> bool \<times> jsstring \<times> jsstring option)" where
  "session_of s =
     ((isSessionActive s, sessionPromiseRef s, streamRef s, scriptProcessorRef s,
       mediaStreamSourceRef s, inputAudioContextRef s, outputAudioContextRef s),
      (aiRef s, statusMessage s, calls s, isApiKeyModalOpen s, isApiKeySet s, apiKeyInput s,
       googleApiKey s))"

definition playback_of :: "app \<Rightarrow> audio_source list \<times> nat set \<times> real" where
  "playback_of s = (sources s, audioPlaybackSources s, nextStartTimeRef s)"

subsection \<open>What a message carries\<close>

text \<open>
  The flags and the transcript fragments of a message, and its audio fragments: the
  non-empty payloads of its parts, each with the current time read for it. A fragment is
  decodable when the decoder gives a buffer for its payload. \<open>transcript_step\<close> is the
  first half of \<^verbatim>\<open>onmessage\<close>, up to the loop over the parts.
\<close>

definition is_turnComplete :: "live_server_message \<Rightarrow> bool" where
  "is_turnComplete msg = (case msg of None \<Rightarrow> False | Some sc \<Rightarrow> turnComplete sc)"

definition is_interrupted :: "live_server_message \<Rightarrow> bool" where
  "is_interrupted msg = (case msg of None \<Rightarrow> False | Some sc \<Rightarrow> interrupted sc)"

definition user_text :: "live_server_message \<Rightarrow> jsstring" where
  "user_text msg = (case msg of None \<Rightarrow> [] | Some sc \<Rightarrow>
      (case inputTranscription sc of None \<Rightarrow> [] | Some text \<Rightarrow> text))"

definition tutor_text :: "live_server_message \<Rightarrow> jsstring" where
  "tutor_text msg = (case msg of None \<Rightarrow> [] | Some sc \<Rightarrow>
      (case outputTranscription sc of None \<Rightarrow> [] | Some text \<Rightarrow> text))"

definition part_audio :: "real \<times> part \<Rightarrow> (real \<times> jsstring) list" where
  "part_audio tp =
     (case inlineData_data (snd tp) of
        None \<Rightarrow> []
      | Some b \<Rightarrow> if b = [] then [] else [(fst tp, b)])"

definition audio_fragments :: "live_server_message \<Rightarrow> (real \<times> jsstring) list" where
  "audio_fragments msg =
     (case msg of
        None \<Rightarrow> []
      | Some sc \<Rightarrow>
          (case modelTurn_parts sc of None \<Rightarrow> [] | Some parts \<Rightarrow> concat (map part_audio parts)))"

definition decodable :: "(jsstring \<Rightarrow> audio_buffer option) \<Rightarrow> real \<times> jsstring \<Rightarrow> bool" where
  "decodable dec f = (dec (snd f) \<noteq> None)"

definition decoded_duration :: "(jsstring \<Rightarrow> audio_buffer option) \<Rightarrow> real \<times> jsstring \<Rightarrow> real \<times> real" where
  "decoded_duration dec f =
     (fst f, case dec (snd f) of None \<Rightarrow> 0 | Some audioBuffer \<Rightarrow> duration audioBuffer)"

definition transcript_step :: "server_content \<Rightarrow> app \<Rightarrow> app" where
  "transcript_step sc s = on_turnComplete sc (on_outputTranscription sc (on_inputTranscription sc s))"

subsection \<open>Messages of one kind\<close>

definition fragment_message :: "jsstring option \<Rightarrow> jsstring option \<Rightarrow> live_server_message" where
  "fragment_message u t =
     Some \<lparr>inputTranscription = u, outputTranscription = t, turnComplete = False,
           modelTurn_parts = None, interrupted = False\<rparr>"

definition turn_complete_message :: live_server_message where
  "turn_complete_message =
     Some \<lparr>inputTranscription = None, outputTranscription = None, turnComplete = True,
           modelTurn_parts = None, interrupted = False\<rparr>"

definition interruption_message :: live_server_message where
  "interruption_message =
     Some \<lparr>inputTranscription = None, outputTranscription = None, turnComplete = False,
           modelTurn_parts = None, interrupted = True\<rparr>"

definition audio_message :: "(real \<times> part) list \<Rightarrow> live_server_message" where
  "audio_message parts =
     Some \<lparr>inputTranscription = None, outputTranscription = None, turnComplete = False,
           modelTurn_parts = Some parts, interrupted = False\<rparr>"

subsection \<open>The calls of a stop\<close>

text \<open>
  \<open>after_close\<close> is what \<^verbatim>\<open>stopSession\<close> leaves in an audio context ref, \<open>stop_calls\<close>
  the calls it makes and \<open>stop_callbacks\<close> the callback it chains. \<open>release_calls\<close> is one
  release call for each resource a ref holds. \<open>is_opening_call\<close> singles out the calls
  that open a resource.
\<close>

definition after_close :: "audio_context option \<Rightarrow> audio_context option" where
  "after_close r =
     (case r of None \<Rightarrow> None | Some c \<Rightarrow> if ctx_state c \<noteq> Closed then None else Some c)"

definition context_close_call :: "audio_context option \<Rightarrow> call list" where
  "context_close_call r =
     (case r of
        None \<Rightarrow> []
      | Some c \<Rightarrow> if ctx_state c \<noteq> Closed then [AudioContextClose (ctx_id c)] else [])"

definition stop_calls :: "app \<Rightarrow> call list" where
  "stop_calls s =
     (if streamRef s \<noteq> None then [TrackStop] else []) @
     (if scriptProcessorRef s \<noteq> None then [ScriptProcessorDisconnect] else []) @
     (if mediaStreamSourceRef s \<noteq> None then [MediaStreamSourceDisconnect] else []) @
     context_close_call (inputAudioContextRef s) @
     context_close_call (outputAudioContextRef s)"

definition stop_callbacks :: "app \<Rightarrow> then_callback list" where
  "stop_callbacks s =
     (case sessionPromiseRef s of
        None \<Rightarrow> []
      | Some sessionPromise \<Rightarrow> [SessionCloseCallback sessionPromise])"

definition release_calls :: "app \<Rightarrow> call list" where
  "release_calls s =
     (if streamRef s \<noteq> None then [TrackStop] else []) @
     (if scriptProcessorRef s \<noteq> None then [ScriptProcessorDisconnect] else []) @
     (if mediaStreamSourceRef s \<noteq> None then [MediaStreamSourceDisconnect] else []) @
     (case inputAudioContextRef s of None \<Rightarrow> [] | Some c \<Rightarrow> [AudioContextClose (ctx_id c)]) @
     (case outputAudioContextRef s of None \<Rightarrow> [] | Some c \<Rightarrow> [AudioContextClose (ctx_id c)])"

fun is_opening_call :: "call \<Rightarrow> bool" where
  "is_opening_call (NewAudioContext i r) = True"
| "is_opening_call (ConnectLive i) = True"
| "is_opening_call GetUserMedia = True"
| "is_opening_call c = False"

subsection \<open>What is open\<close>

text \<open>
  Read off the calls made so far: the audio contexts that have been created and not
  closed, and the connections that have been opened and not closed.
\<close>

fun created_context :: "call \<Rightarrow> nat list" where
  "created_context (NewAudioContext i r) = [i]"
| "created_context c = []"

fun opened_session :: "call \<Rightarrow> nat list" where
  "opened_session (ConnectLive i) = [i]"
| "opened_session c = []"

definition open_contexts :: "call list \<Rightarrow> nat list" where
  "open_contexts cs =
     filter (\<lambda>i. AudioContextClose i \<notin> set cs) (concat (map created_context cs))"

definition open_sessions :: "call list \<Rightarrow> nat list" where
  "open_sessions cs =
     filter (\<lambda>i. SessionClose i \<notin> set cs) (concat (map opened_session cs))"

subsection \<open>Invariants\<close>

text \<open>
  A context held in a ref is not closed, and a tracked source is one of the nodes created.
  \<open>extends_playback\<close> relates a state to a later one in which nodes have only been added
  and every added node is tracked.
\<close>

definition ctx_ok :: "app \<Rightarrow> bool" where
  "ctx_ok s = (after_close (inputAudioContextRef s) = None \<and>
               after_close (outputAudioContextRef s) = None)"

definition tracked_ok :: "app \<Rightarrow> bool" where
  "tracked_ok s = (\<forall>i \<in> audioPlaybackSources s. i < length (sources s))"

definition extends_playback :: "app \<Rightarrow> app \<Rightarrow> bool" where
  "extends_playback s s' =
     (take (length (sources s)) (sources s') = sources s \<and>
      length (sources s) \<le> length (sources s') \<and>
      audioPlaybackSources s' =
        audioPlaybackSources s \<union> {length (sources s)..<length (sources s')})"

subsection \<open>The schedule\<close>

text \<open>
  The nodes that a cursor and a list of fragments (current time, duration) give, and the
  cursor after them, written as plain recursion over the list. The lemmas below show
  that the loop of \<^verbatim>\<open>onmessage\<close> computes exactly these.
\<close>

fun schedule :: "real \<Rightarrow> (real \<times> real) list \<Rightarrow> audio_source list" where
  "schedule c [] = []"
| "schedule c (f # fs) =
     \<lparr>start_when = max c (fst f), buffer_duration = snd f, stopped = False\<rparr> #
     schedule (max c (fst f) + snd f) fs"

fun cursor_after :: "real \<Rightarrow> (real \<times> real) list \<Rightarrow> real" where
  "cursor_after c [] = c"
| "cursor_after c (f # fs) = cursor_after (max c (fst f) + snd f) fs"

subsection \<open>Example states and messages\<close>

text \<open>
  A session from the stored key to audio being played, with a decoder that rejects one
  payload and gives half a second of audio for each code unit of any other.
\<close>

definition example_initializeAi :: "jsstring \<Rightarrow> ai_client option" where
  "example_initializeAi k = Some (GoogleGenAI k)"

definition example_decoder :: "jsstring \<Rightarrow> audio_buffer option" where
  "example_decoder b =
     (if b = lit ''bad'' then None else Some \<lparr>buf_length = 12000 * length b, buf_sampleRate = 24000\<rparr>)"

definition example_ready :: app where
  "example_ready = mount example_initializeAi (Some (lit ''key''))"

definition example_connecting :: app where
  "example_connecting = handleNewSession NoFailure example_ready"

definition example_double_start :: app where
  "example_double_start = handleNewSession NoFailure example_connecting"

definition example_active :: app where
  "example_active = onopen_resume Granted (onopen example_connecting)"

definition example_playing :: app where
  "example_playing =
     snd (onmessage example_decoder
       (audio_message [(1 / 2, \<lparr>inlineData_data = Some (lit ''AA'')\<rparr>)]) example_active)"

definition example_talking :: app where
  "example_talking =
     example_active\<lparr>messages := [\<lparr>role = User, content = lit ''Hello''\<rparr>],
       currentTutorTranscriptionRef := lit ''Hi th'',
       displayTutorTranscription := lit ''Hi th''\<rparr>"

definition example_audio :: "live_server_message list" where
  "example_audio =
     [audio_message [(1 / 2, \<lparr>inlineData_data = Some (lit ''AA'')\<rparr>),
                     (1 / 2, \<lparr>inlineData_data = Some (lit ''A'')\<rparr>)],
      audio_message [(5, \<lparr>inlineData_data = Some (lit ''AA'')\<rparr>)]]"

definition example_three :: app where
  "example_three = run_messages example_decoder example_audio example_active"

definition example_bad_message :: live_server_message where
  "example_bad_message =
     audio_message [(1 / 2, \<lparr>inlineData_data = Some (lit ''bad'')\<rparr>),
                    (1 / 2, \<lparr>inlineData_data = Some (lit ''AA'')\<rparr>)]"

definition example_interrupted_bad :: live_server_message where
  "example_interrupted_bad =
     Some \<lparr>inputTranscription = None, outputTranscription = None, turnComplete = False,
           modelTurn_parts = Some [(1 / 2, \<lparr>inlineData_data = Some (lit ''bad'')\<rparr>)],
           interrupted = True\<rparr>"

section \<open>The turn aggregator\<close>

lemma play_part_transcript: "transcript_of (snd (play_part dec tp s)) = transcript_of s"
  by (simp add: play_part_def transcript_of_def Let_def split: option.splits)

lemma play_parts_transcript: "transcript_of (snd (play_parts dec tps s)) = transcript_of s"
proof (induction tps arbitrary: s)
  case Nil
  show ?case by simp
next
  case (Cons tp tps)
  obtain out s' where p: "play_part dec tp s = (out, s')" by (cases "play_part dec tp s")
  have "transcript_of s' = transcript_of s"
    using play_part_transcript [of dec tp s] p by simp
  with Cons.IH [of s'] p show ?case by (cases out) simp_all
qed

lemma on_interrupted_transcript: "transcript_of (on_interrupted sc s) = transcript_of s"
  by (simp add: on_interrupted_def transcript_of_def)

lemma onmessage_transcript:
  "transcript_of (snd (onmessage dec (Some sc) s)) = transcript_of (transcript_step sc s)"
proof -
  let ?s1 = "transcript_step sc s"
  show ?thesis
  proof (cases "modelTurn_parts sc")
    case None
    then show ?thesis
      by (simp add: onmessage_def transcript_step_def on_interrupted_transcript)
  next
    case (Some parts)
    obtain out s2 where p: "play_parts dec parts ?s1 = (out, s2)"
      by (cases "play_parts dec parts ?s1")
    have "transcript_of s2 = transcript_of ?s1"
      using play_parts_transcript [of dec parts ?s1] p by simp
    with Some p show ?thesis
      by (cases out) (simp_all add: onmessage_def transcript_step_def [symmetric] on_interrupted_transcript)
  qed
qed

lemma onmessage_None: "onmessage dec None s = (Returned, s)"
  by (simp add: onmessage_def)

text \<open>A message that does not complete the turn only appends its fragments.\<close>

lemma onmessage_fragment:
  assumes "\<not> is_turnComplete msg"
  shows "transcript_of (snd (onmessage dec msg s)) =
    (messages s, currentUserTranscriptionRef s @ user_text msg,
     currentTutorTranscriptionRef s @ tutor_text msg,
     (if msg \<noteq> None \<and> inputTranscription (the msg) \<noteq> None
      then currentUserTranscriptionRef s @ user_text msg else displayUserTranscription s),
     (if msg \<noteq> None \<and> outputTranscription (the msg) \<noteq> None
      then currentTutorTranscriptionRef s @ tutor_text msg else displayTutorTranscription s))"
proof (cases msg)
  case None
  then show ?thesis by (simp add: onmessage_None transcript_of_def user_text_def tutor_text_def)
next
  case (Some sc)
  with assms have "\<not> turnComplete sc" by (simp add: is_turnComplete_def)
  then show ?thesis unfolding Some onmessage_transcript
    by (simp add: transcript_step_def on_turnComplete_def on_outputTranscription_def
        on_inputTranscription_def transcript_of_def user_text_def tutor_text_def
        split: option.splits)
qed

lemma run_fragments:
  assumes "list_all (\<lambda>m. \<not> is_turnComplete m) ms"
  shows "messages (run_messages dec ms s) = messages s \<and>
         currentUserTranscriptionRef (run_messages dec ms s) =
           currentUserTranscriptionRef s @ concat (map user_text ms) \<and>
         currentTutorTranscriptionRef (run_messages dec ms s) =
           currentTutorTranscriptionRef s @ concat (map tutor_text ms)"
  using assms
proof (induction ms arbitrary: s)
  case Nil
  show ?case by simp
next
  case (Cons m ms)
  let ?s1 = "snd (onmessage dec m s)"
  from Cons.prems have m: "\<not> is_turnComplete m" and ms: "list_all (\<lambda>m. \<not> is_turnComplete m) ms"
    by simp_all
  from onmessage_fragment [OF m, of dec s]
  have "messages ?s1 = messages s"
    and "currentUserTranscriptionRef ?s1 = currentUserTranscriptionRef s @ user_text m"
    and "currentTutorTranscriptionRef ?s1 = currentTutorTranscriptionRef s @ tutor_text m"
    by (simp_all add: transcript_of_def)
  with Cons.IH [OF ms, of ?s1] show ?case by simp
qed

lemma run_messages_append:
  "run_messages dec (ms @ ns) s = run_messages dec ns (run_messages dec ms s)"
  by (induction ms arbitrary: s) simp_all

lemma onmessage_turnComplete:
  assumes "is_turnComplete msg"
  shows "transcript_of (snd (onmessage dec msg s)) =
    (messages s @
       (if trim (currentUserTranscriptionRef s @ user_text msg) \<noteq> []
        then [\<lparr>role = User, content = trim (currentUserTranscriptionRef s @ user_text msg)\<rparr>]
        else []) @
       (if trim (currentTutorTranscriptionRef s @ tutor_text msg) \<noteq> []
        then [\<lparr>role = Ai, content = trim (currentTutorTranscriptionRef s @ tutor_text msg)\<rparr>]
        else []),
     [], [], [], [])"
proof (cases msg)
  case None
  with assms show ?thesis by (simp add: is_turnComplete_def)
next
  case (Some sc)
  with assms have "turnComplete sc" by (simp add: is_turnComplete_def)
  then show ?thesis unfolding Some onmessage_transcript
    by (simp add: transcript_step_def on_turnComplete_def on_outputTranscription_def
        on_inputTranscription_def transcript_of_def user_text_def tutor_text_def Let_def
        split: option.splits)
qed

lemma run_turn:
  assumes "list_all (\<lambda>m. \<not> is_turnComplete m) ms" and "is_turnComplete m"
  shows "transcript_of (run_messages dec (ms @ [m]) s) =
    (messages s @
       (if trim (currentUserTranscriptionRef s @ concat (map user_text (ms @ [m]))) \<noteq> []
        then [\<lparr>role = User,
               content = trim (currentUserTranscriptionRef s @ concat (map user_text (ms @ [m])))\<rparr>]
        else []) @
       (if trim (currentTutorTranscriptionRef s @ concat (map tutor_text (ms @ [m]))) \<noteq> []
        then [\<lparr>role = Ai,
               content = trim (currentTutorTranscriptionRef s @ concat (map tutor_text (ms @ [m])))\<rparr>]
        else []),
     [], [], [], [])"
proof -
  let ?s1 = "run_messages dec ms s"
  have "run_messages dec (ms @ [m]) s = snd (onmessage dec m ?s1)"
    by (simp add: run_messages_append)
  then show ?thesis
    using onmessage_turnComplete [OF assms(2), of dec ?s1] run_fragments [OF assms(1), of dec s]
    by simp
qed

text \<open>
  Claim C1. Let the handler run over messages that carry transcript fragments and do not
  complete the turn, and then over a message that completes it, from a state at a turn
  boundary (both accumulators empty). The transcript log gains one message for each speaker
  whose accumulated text is not empty after trimming, the user's before the tutor's, and
  the content of each is the trimmed concatenation of that speaker's fragments. Both
  accumulators and both live-display values are empty afterwards. When both texts are
  empty after trimming the log is unchanged, and the turn that follows yields exactly the
  messages of its own fragments.
\<close>

theorem turn_complete_finalizes_transcripts:
  assumes frags: "list_all (\<lambda>m. \<not> is_turnComplete m) ms"
    and tc: "is_turnComplete m"
    and start: "currentUserTranscriptionRef s = []" "currentTutorTranscriptionRef s = []"
  shows "messages (run_messages dec (ms @ [m]) s) =
           messages s @
           (if trim (concat (map user_text (ms @ [m]))) \<noteq> []
            then [\<lparr>role = User, content = trim (concat (map user_text (ms @ [m])))\<rparr>] else []) @
           (if trim (concat (map tutor_text (ms @ [m]))) \<noteq> []
            then [\<lparr>role = Ai, content = trim (concat (map tutor_text (ms @ [m])))\<rparr>] else [])
       \<and> currentUserTranscriptionRef (run_messages dec (ms @ [m]) s) = []
       \<and> currentTutorTranscriptionRef (run_messages dec (ms @ [m]) s) = []
       \<and> displayUserTranscription (run_messages dec (ms @ [m]) s) = []
       \<and> displayTutorTranscription (run_messages dec (ms @ [m]) s) = []
       \<and> (trim (concat (map user_text (ms @ [m]))) = [] \<and>
          trim (concat (map tutor_text (ms @ [m]))) = [] \<longrightarrow>
            messages (run_messages dec (ms @ [m]) s) = messages s \<and>
            (\<forall>ns n. list_all (\<lambda>m. \<not> is_turnComplete m) ns \<and> is_turnComplete n \<longrightarrow>
               messages (run_messages dec ((ms @ [m]) @ (ns @ [n])) s) =
                 messages s @
                 (if trim (concat (map user_text (ns @ [n]))) \<noteq> []
                  then [\<lparr>role = User, content = trim (concat (map user_text (ns @ [n])))\<rparr>]
                  else []) @
                 (if trim (concat (map tutor_text (ns @ [n]))) \<noteq> []
                  then [\<lparr>role = Ai, content = trim (concat (map tutor_text (ns @ [n])))\<rparr>]
                  else [])))"
proof -
  let ?s1 = "run_messages dec (ms @ [m]) s"
  have one: "transcript_of ?s1 =
    (messages s @
       (if trim (concat (map user_text (ms @ [m]))) \<noteq> []
        then [\<lparr>role = User, content = trim (concat (map user_text (ms @ [m])))\<rparr>] else []) @
       (if trim (concat (map tutor_text (ms @ [m]))) \<noteq> []
        then [\<lparr>role = Ai, content = trim (concat (map tutor_text (ms @ [m])))\<rparr>] else []),
     [], [], [], [])"
    using run_turn [OF frags tc, of dec s] start by simp
  then have fields:
    "messages ?s1 =
       messages s @
       (if trim (concat (map user_text (ms @ [m]))) \<noteq> []
        then [\<lparr>role = User, content = trim (concat (map user_text (ms @ [m])))\<rparr>] else []) @
       (if trim (concat (map tutor_text (ms @ [m]))) \<noteq> []
        then [\<lparr>role = Ai, content = trim (concat (map tutor_text (ms @ [m])))\<rparr>] else [])"
    "currentUserTranscriptionRef ?s1 = []" "currentTutorTranscriptionRef ?s1 = []"
    "displayUserTranscription ?s1 = []" "displayTutorTranscription ?s1 = []"
    by (simp_all add: transcript_of_def)
  have next_turn: "messages (run_messages dec ((ms @ [m]) @ (ns @ [n])) s) =
      messages ?s1 @
      (if trim (concat (map user_text (ns @ [n]))) \<noteq> []
       then [\<lparr>role = User, content = trim (concat (map user_text (ns @ [n])))\<rparr>] else []) @
      (if trim (concat (map tutor_text (ns @ [n]))) \<noteq> []
       then [\<lparr>role = Ai, content = trim (concat (map tutor_text (ns @ [n])))\<rparr>] else [])"
    if "list_all (\<lambda>m. \<not> is_turnComplete m) ns" and "is_turnComplete n" for ns n
  proof -
    have "run_messages dec ((ms @ [m]) @ (ns @ [n])) s = run_messages dec (ns @ [n]) ?s1"
      by (rule run_messages_append)
    then show ?thesis
      using run_turn [OF that, of dec ?s1] fields(2,3) by (simp add: transcript_of_def)
  qed
  show ?thesis
  proof (intro conjI impI allI)
    show "messages ?s1 =
       messages s @
       (if trim (concat (map user_text (ms @ [m]))) \<noteq> []
        then [\<lparr>role = User, content = trim (concat (map user_text (ms @ [m])))\<rparr>] else []) @
       (if trim (concat (map tutor_text (ms @ [m]))) \<noteq> []
        then [\<lparr>role = Ai, content = trim (concat (map tutor_text (ms @ [m])))\<rparr>] else [])"
      by (rule fields(1))
  next
    assume "trim (concat (map user_text (ms @ [m]))) = [] \<and>
            trim (concat (map tutor_text (ms @ [m]))) = []"
    then show "messages ?s1 = messages s" using fields(1) by simp
  next
    fix ns n
    assume e: "trim (concat (map user_text (ms @ [m]))) = [] \<and>
               trim (concat (map tutor_text (ms @ [m]))) = []"
      and n: "list_all (\<lambda>m. \<not> is_turnComplete m) ns \<and> is_turnComplete n"
    from e have "messages ?s1 = messages s" using fields(1) by simp
    with next_turn [of ns n] n
    show "messages (run_messages dec ((ms @ [m]) @ (ns @ [n])) s) =
                 messages s @
                 (if trim (concat (map user_text (ns @ [n]))) \<noteq> []
                  then [\<lparr>role = User, content = trim (concat (map user_text (ns @ [n])))\<rparr>]
                  else []) @
                 (if trim (concat (map tutor_text (ns @ [n]))) \<noteq> []
                  then [\<lparr>role = Ai, content = trim (concat (map tutor_text (ns @ [n])))\<rparr>]
                  else [])"
      by simp
  qed (rule fields)+
qed

theorem turn_complete_finalizes_transcripts_witness:
  "messages (run_messages (\<lambda>b. None)
      [fragment_message (Some (lit ''I go'')) None,
       fragment_message (Some (lit '' to school'')) None,
       turn_complete_message] (mount (\<lambda>k. None) None)) =
     [\<lparr>role = User, content = lit ''I go to school''\<rparr>]
   \<and> messages (run_messages (\<lambda>b. None)
      [fragment_message (Some (lit '' '')) None, turn_complete_message,
       fragment_message None (Some (lit ''Hi '')), turn_complete_message]
      (mount (\<lambda>k. None) None)) =
     [\<lparr>role = Ai, content = lit ''Hi''\<rparr>]"
proof -
  let ?s = "mount (\<lambda>k. None) None"
  let ?dec = "\<lambda>b :: jsstring. None :: audio_buffer option"
  have s: "currentUserTranscriptionRef ?s = []" "currentTutorTranscriptionRef ?s = []"
    "messages ?s = []"
    by (simp_all add: mount_def)
  have tc: "is_turnComplete turn_complete_message"
    by (simp add: is_turnComplete_def turn_complete_message_def)
  have f1: "list_all (\<lambda>m. \<not> is_turnComplete m)
      [fragment_message (Some (lit ''I go'')) None,
       fragment_message (Some (lit '' to school'')) None]"
    by (simp add: is_turnComplete_def fragment_message_def)
  have f2: "list_all (\<lambda>m. \<not> is_turnComplete m) [fragment_message (Some (lit '' '')) None]"
    by (simp add: is_turnComplete_def fragment_message_def)
  have f3: "list_all (\<lambda>m. \<not> is_turnComplete m) [fragment_message None (Some (lit ''Hi ''))]"
    by (simp add: is_turnComplete_def fragment_message_def)
  have t1: "trim (lit ''I go'' @ lit '' to school'') = lit ''I go to school''"
    and t2: "trim (lit '' '') = []" and t3: "trim (lit ''Hi '') = lit ''Hi''"
    and t4: "lit ''I go to school'' \<noteq> []" "lit ''Hi'' \<noteq> []" "trim [] = []"
    by (simp_all add: trim_def lit_def isWhiteSpace_def)
  have a: "messages (run_messages ?dec
      ([fragment_message (Some (lit ''I go'')) None,
       fragment_message (Some (lit '' to school'')) None] @
       [turn_complete_message]) ?s) =
     [\<lparr>role = User, content = lit ''I go to school''\<rparr>]"
    using turn_complete_finalizes_transcripts [OF f1 tc s(1,2), of ?dec]
    by (simp add: s(3) user_text_def tutor_text_def fragment_message_def
        turn_complete_message_def t1 t4 del: run_messages.simps)
  have b: "messages (run_messages ?dec
      (([fragment_message (Some (lit '' '')) None] @ [turn_complete_message]) @
       ([fragment_message None (Some (lit ''Hi ''))] @ [turn_complete_message])) ?s) =
     [\<lparr>role = Ai, content = lit ''Hi''\<rparr>]"
  proof -
    have e: "trim (concat (map user_text
                ([fragment_message (Some (lit '' '')) None] @ [turn_complete_message]))) = [] \<and>
             trim (concat (map tutor_text
                ([fragment_message (Some (lit '' '')) None] @ [turn_complete_message]))) = []"
      by (simp add: user_text_def tutor_text_def fragment_message_def
          turn_complete_message_def t2 t4)
    from turn_complete_finalizes_transcripts [OF f2 tc s(1,2), of ?dec] e
    have "\<forall>ns n. list_all (\<lambda>m. \<not> is_turnComplete m) ns \<and> is_turnComplete n \<longrightarrow>
        messages (run_messages ?dec
          (([fragment_message (Some (lit '' '')) None] @ [turn_complete_message]) @ (ns @ [n]))
          ?s) =
        messages ?s @
        (if trim (concat (map user_text (ns @ [n]))) \<noteq> []
         then [\<lparr>role = User, content = trim (concat (map user_text (ns @ [n])))\<rparr>] else []) @
        (if trim (concat (map tutor_text (ns @ [n]))) \<noteq> []
         then [\<lparr>role = Ai, content = trim (concat (map tutor_text (ns @ [n])))\<rparr>] else [])"
      by blast
    from this [rule_format, of "[fragment_message None (Some (lit ''Hi ''))]"
        turn_complete_message] f3 tc
    show ?thesis
      by (simp add: s(3) user_text_def tutor_text_def fragment_message_def
          turn_complete_message_def t3 t4 del: run_messages.simps)
  qed
  from a b show ?thesis by simp
qed

section \<open>Stopping\<close>

text \<open>\<^verbatim>\<open>stopSession\<close> in closed form, step by step.\<close>

lemmas stop_steps = stop_stream_def disconnect_scriptProcessor_def
  disconnect_mediaStreamSource_def close_inputAudioContext_def close_session_def
  stop_playback_def close_outputAudioContext_def

lemma stop_steps_eq:
  "stop_stream s =
     s\<lparr>calls := calls s @ (if streamRef s \<noteq> None then [TrackStop] else []), streamRef := None\<rparr>"
  "disconnect_scriptProcessor s =
     s\<lparr>calls := calls s @ (if scriptProcessorRef s \<noteq> None then [ScriptProcessorDisconnect] else []),
       scriptProcessorRef := None\<rparr>"
  "disconnect_mediaStreamSource s =
     s\<lparr>calls := calls s @ (if mediaStreamSourceRef s \<noteq> None then [MediaStreamSourceDisconnect] else []),
       mediaStreamSourceRef := None\<rparr>"
  "close_inputAudioContext s =
     s\<lparr>calls := calls s @ context_close_call (inputAudioContextRef s),
       inputAudioContextRef := after_close (inputAudioContextRef s)\<rparr>"
  "close_session s =
     s\<lparr>thenCallbacks := thenCallbacks s @ stop_callbacks s, sessionPromiseRef := None\<rparr>"
  "close_outputAudioContext s =
     s\<lparr>calls := calls s @ context_close_call (outputAudioContextRef s),
       outputAudioContextRef := after_close (outputAudioContextRef s)\<rparr>"
  by (cases s, simp add: stop_steps after_close_def context_close_call_def stop_callbacks_def
      split: option.splits)+

lemma stopSession_eq:
  "stopSession s =
     s\<lparr>calls := calls s @ stop_calls s, streamRef := None, scriptProcessorRef := None,
       mediaStreamSourceRef := None, inputAudioContextRef := after_close (inputAudioContextRef s),
       thenCallbacks := thenCallbacks s @ stop_callbacks s, sessionPromiseRef := None,
       sources := stop_sources (audioPlaybackSources s) (sources s),
       audioPlaybackSources := {},
       outputAudioContextRef := after_close (outputAudioContextRef s),
       nextStartTimeRef := 0, isSessionActive := False,
       statusMessage := ''Session ended. Click the microphone to practice again.''\<rparr>"
  by (cases s) (simp add: stopSession_def stop_steps_eq stop_playback_def stop_calls_def
      stop_callbacks_def split del: if_split)

section \<open>Reachable states\<close>

text \<open>The message handler does not touch the session; no operation leaves a closed context in a ref.\<close>

lemma after_close_idem: "after_close (after_close r) = after_close r"
  by (simp add: after_close_def split: option.splits)

lemma after_close_None: "after_close None = None"
  by (simp add: after_close_def)

lemma after_close_Running: "after_close (Some (AudioContext i r Running)) = None"
  by (simp add: after_close_def)

lemma play_part_session: "session_of (snd (play_part dec tp s)) = session_of s"
  by (simp add: play_part_def session_of_def Let_def split: option.splits)

lemma play_parts_session: "session_of (snd (play_parts dec tps s)) = session_of s"
proof (induction tps arbitrary: s)
  case Nil
  show ?case by simp
next
  case (Cons tp tps)
  obtain out s' where p: "play_part dec tp s = (out, s')" by (cases "play_part dec tp s")
  have "session_of s' = session_of s"
    using play_part_session [of dec tp s] p by simp
  with Cons.IH [of s'] p show ?case by (cases out) simp_all
qed

lemma transcript_step_session: "session_of (transcript_step sc s) = session_of s"
  by (simp add: transcript_step_def on_turnComplete_def on_outputTranscription_def
      on_inputTranscription_def session_of_def Let_def split: option.splits)

lemma on_interrupted_session: "session_of (on_interrupted sc s) = session_of s"
  by (simp add: on_interrupted_def session_of_def)

lemma onmessage_session: "session_of (snd (onmessage dec msg s)) = session_of s"
proof (cases msg)
  case None
  then show ?thesis by (simp add: onmessage_None)
next
  case (Some sc)
  let ?s1 = "transcript_step sc s"
  show ?thesis
  proof (cases "modelTurn_parts sc")
    case None
    with Some show ?thesis
      by (simp add: onmessage_def transcript_step_def [symmetric] on_interrupted_session
          transcript_step_session)
  next
    case (Some parts)
    obtain out s2 where p: "play_parts dec parts ?s1 = (out, s2)"
      by (cases "play_parts dec parts ?s1")
    have "session_of s2 = session_of s"
      using play_parts_session [of dec parts ?s1] p by (simp add: transcript_step_session)
    with Some \<open>msg = Some sc\<close> p show ?thesis
      by (cases out) (simp_all add: onmessage_def transcript_step_def [symmetric]
          on_interrupted_session)
  qed
qed

lemma ctx_ok_session: "session_of s' = session_of s \<Longrightarrow> ctx_ok s' = ctx_ok s"
  by (simp add: session_of_def ctx_ok_def)

lemma ctx_ok_stopSession: "ctx_ok s \<Longrightarrow> ctx_ok (stopSession s)"
  by (simp add: ctx_ok_def stopSession_eq after_close_None)

lemma ctx_ok_mount: "ctx_ok (mount initializeAi savedApiKey)"
  by (simp add: ctx_ok_def mount_def after_close_None Let_def split: option.splits)

lemma ctx_ok_handleSaveApiKey: "ctx_ok s \<Longrightarrow> ctx_ok (handleSaveApiKey initializeAi s)"
  by (simp add: ctx_ok_def handleSaveApiKey_def split: option.splits)

lemma ctx_ok_handleNewSession:
  assumes "ctx_ok s"
  shows "ctx_ok (handleNewSession env s)"
proof -
  define s1 where "s1 = (if isSessionActive s then stopSession s else s)"
  have "ctx_ok s1" using assms by (simp add: s1_def ctx_ok_stopSession)
  then show ?thesis
    unfolding handleNewSession_def Let_def s1_def [symmetric]
    by (cases env) (simp_all add: ctx_ok_def start_failed_def after_close_Running after_close_None)
qed

lemma ctx_ok_onopen_resume: "ctx_ok s \<Longrightarrow> ctx_ok (onopen_resume answer s)"
proof -
  assume ok: "ctx_ok s"
  have a: "ctx_ok (onopen_catch t)" if "ctx_ok t" for t
  proof -
    from that have "ctx_ok (t\<lparr>statusMessage := ''Microphone access denied. Please allow permission.''\<rparr>)"
      by (simp add: ctx_ok_def)
    then show ?thesis unfolding onopen_catch_def by (rule ctx_ok_stopSession)
  qed
  have b: "ctx_ok (s\<lparr>streamRef := Some MediaStream\<rparr>)" using ok by (simp add: ctx_ok_def)
  show ?thesis
  proof (cases answer)
    case Denied
    then show ?thesis using a [OF ok] by (simp add: onopen_resume_def)
  next
    case Granted
    then show ?thesis using a [OF b] b by (simp add: onopen_resume_def Let_def ctx_ok_def)
  qed
qed

lemma reachable_ctx_ok: "reachable s \<Longrightarrow> ctx_ok s"
proof (induction rule: reachable.induct)
  case (r_mount initializeAi savedApiKey)
  show ?case by (rule ctx_ok_mount)
next
  case (r_input s v)
  then show ?case by (simp add: ctx_ok_def setApiKeyInput_def)
next
  case (r_save s initializeAi)
  then show ?case by (simp add: ctx_ok_handleSaveApiKey)
next
  case (r_new s env)
  then show ?case by (simp add: ctx_ok_handleNewSession)
next
  case (r_mic s env)
  then show ?case
    by (simp add: handleMicButtonClick_def ctx_ok_stopSession ctx_ok_handleNewSession)
      (simp add: ctx_ok_def)
next
  case (r_stop s)
  then show ?case by (simp add: ctx_ok_stopSession)
next
  case (r_open s)
  then show ?case by (simp add: ctx_ok_def onopen_def)
next
  case (r_resume s answer)
  then show ?case by (simp add: ctx_ok_onopen_resume)
next
  case (r_audio s)
  then show ?case by (simp add: ctx_ok_def onaudioprocess_def split: option.splits)
next
  case (r_then s i)
  then show ?case by (simp add: ctx_ok_def run_then_def)
next
  case (r_message s dec msg)
  then show ?case using ctx_ok_session [OF onmessage_session] by simp
next
  case (r_ended s source)
  then show ?case by (simp add: ctx_ok_def onended_def)
next
  case (r_error s)
  have "ctx_ok (s\<lparr>statusMessage := ''A connection error occurred. Please restart.''\<rparr>)"
    using r_error.IH by (simp add: ctx_ok_def)
  then show ?case unfolding onerror_def by (rule ctx_ok_stopSession)
next
  case (r_close s)
  then show ?case by (simp add: onclose_def ctx_ok_stopSession)
qed

section \<open>Idempotence of stopping\<close>

lemma context_close_call_open:
  "after_close r = None \<Longrightarrow>
   context_close_call r = (case r of None \<Rightarrow> [] | Some c \<Rightarrow> [AudioContextClose (ctx_id c)])"
  by (cases r) (auto simp add: after_close_def context_close_call_def split: if_splits)

lemma stop_calls_release: "ctx_ok s \<Longrightarrow> stop_calls s = release_calls s"
  by (simp add: ctx_ok_def stop_calls_def release_calls_def context_close_call_open)

lemma context_close_call_after_close: "context_close_call (after_close r) = []"
  by (auto simp add: context_close_call_def after_close_def split: option.splits)

lemma length_stop_sources: "length (stop_sources S ns) = length ns"
  by (simp add: stop_sources_def)

lemma nth_stop_sources:
  "i < length ns \<Longrightarrow>
   stop_sources S ns ! i = (if i \<in> S then (ns ! i)\<lparr>stopped := True\<rparr> else ns ! i)"
  by (simp add: stop_sources_def nth_enumerate_eq)

lemma stop_sources_empty: "stop_sources {} ns = ns"
  by (rule nth_equalityI) (simp_all add: length_stop_sources nth_stop_sources)

lemma stop_calls_stopSession: "stop_calls (stopSession s) = []"
  by (simp add: stop_calls_def stopSession_eq context_close_call_after_close)

lemma stop_callbacks_stopSession: "stop_callbacks (stopSession s) = []"
  by (simp add: stop_callbacks_def stopSession_eq)

lemma stopSession_twice: "stopSession (stopSession s) = stopSession s"
proof -
  have "stopSession (stopSession s) =
    (stopSession s)\<lparr>calls := calls (stopSession s) @ stop_calls (stopSession s),
       streamRef := None, scriptProcessorRef := None, mediaStreamSourceRef := None,
       inputAudioContextRef := after_close (inputAudioContextRef (stopSession s)),
       thenCallbacks := thenCallbacks (stopSession s) @ stop_callbacks (stopSession s),
       sessionPromiseRef := None,
       sources := stop_sources (audioPlaybackSources (stopSession s)) (sources (stopSession s)),
       audioPlaybackSources := {},
       outputAudioContextRef := after_close (outputAudioContextRef (stopSession s)),
       nextStartTimeRef := 0, isSessionActive := False,
       statusMessage := ''Session ended. Click the microphone to practice again.''\<rparr>"
    by (rule stopSession_eq)
  also have "\<dots> = stopSession s"
    unfolding stop_calls_stopSession stop_callbacks_stopSession
    by (simp add: stopSession_eq [of s] after_close_idem stop_sources_empty)
  finally show ?thesis .
qed

lemma tracked_ok_stopSession: "tracked_ok (stopSession s)"
  by (simp add: tracked_ok_def stopSession_eq)

lemma tracked_ok_same:
  "sources s' = sources s \<Longrightarrow> audioPlaybackSources s' = audioPlaybackSources s \<Longrightarrow>
   tracked_ok s' = tracked_ok s"
  by (simp add: tracked_ok_def)

lemma handleNewSession_playback:
  "sources (handleNewSession env s) = sources (if isSessionActive s then stopSession s else s)"
  "audioPlaybackSources (handleNewSession env s) =
     audioPlaybackSources (if isSessionActive s then stopSession s else s)"
proof -
  define s1 where "s1 = (if isSessionActive s then stopSession s else s)"
  have "sources (handleNewSession env s) = sources s1"
    "audioPlaybackSources (handleNewSession env s) = audioPlaybackSources s1"
    unfolding handleNewSession_def Let_def s1_def [symmetric]
    by (cases env; simp add: start_failed_def)+
  then show "sources (handleNewSession env s) =
      sources (if isSessionActive s then stopSession s else s)"
    "audioPlaybackSources (handleNewSession env s) =
      audioPlaybackSources (if isSessionActive s then stopSession s else s)"
    by (simp_all only: s1_def)
qed

lemma tracked_ok_handleNewSession:
  assumes "tracked_ok s"
  shows "tracked_ok (handleNewSession env s)"
proof -
  have "tracked_ok (if isSessionActive s then stopSession s else s)"
    using assms by (simp add: tracked_ok_stopSession)
  then show ?thesis
    using tracked_ok_same [OF handleNewSession_playback, of env s] by simp
qed

lemma tracked_ok_onopen_resume: "tracked_ok s \<Longrightarrow> tracked_ok (onopen_resume answer s)"
  by (cases answer)
    (simp_all add: onopen_resume_def onopen_catch_def Let_def tracked_ok_stopSession,
      simp add: tracked_ok_def)

lemma tracked_ok_play_part: "tracked_ok s \<Longrightarrow> tracked_ok (snd (play_part dec tp s))"
  by (auto simp add: tracked_ok_def play_part_def Let_def less_Suc_eq split: option.splits)

lemma tracked_ok_play_parts: "tracked_ok s \<Longrightarrow> tracked_ok (snd (play_parts dec tps s))"
proof (induction tps arbitrary: s)
  case Nil
  then show ?case by simp
next
  case (Cons tp tps)
  obtain out s' where p: "play_part dec tp s = (out, s')" by (cases "play_part dec tp s")
  have "tracked_ok s'" using tracked_ok_play_part [OF Cons.prems, of dec tp] p by simp
  with Cons.IH [of s'] p Cons.prems show ?case by (cases out) simp_all
qed

lemma tracked_ok_transcript_step: "tracked_ok (transcript_step sc s) = tracked_ok s"
  by (simp add: transcript_step_def on_turnComplete_def on_outputTranscription_def
      on_inputTranscription_def tracked_ok_def Let_def split: option.splits)

lemma tracked_ok_on_interrupted: "tracked_ok s \<Longrightarrow> tracked_ok (on_interrupted sc s)"
  by (simp add: on_interrupted_def tracked_ok_def)

lemma tracked_ok_onmessage:
  assumes "tracked_ok s"
  shows "tracked_ok (snd (onmessage dec msg s))"
proof (cases msg)
  case None
  with assms show ?thesis by (simp add: onmessage_None)
next
  case (Some sc)
  let ?s1 = "transcript_step sc s"
  have s1: "tracked_ok ?s1" using assms by (simp add: tracked_ok_transcript_step)
  show ?thesis
  proof (cases "modelTurn_parts sc")
    case None
    with Some s1 show ?thesis
      by (simp add: onmessage_def transcript_step_def [symmetric] tracked_ok_on_interrupted)
  next
    case (Some parts)
    obtain out s2 where p: "play_parts dec parts ?s1 = (out, s2)"
      by (cases "play_parts dec parts ?s1")
    have "tracked_ok s2" using tracked_ok_play_parts [OF s1, of dec parts] p by simp
    with Some \<open>msg = Some sc\<close> p show ?thesis
      by (cases out) (simp_all add: onmessage_def transcript_step_def [symmetric]
          tracked_ok_on_interrupted)
  qed
qed

lemma reachable_tracked_ok: "reachable s \<Longrightarrow> tracked_ok s"
proof (induction rule: reachable.induct)
  case (r_mount initializeAi savedApiKey)
  show ?case by (simp add: tracked_ok_def mount_def Let_def split: option.splits)
next
  case (r_input s v)
  then show ?case by (simp add: tracked_ok_def setApiKeyInput_def)
next
  case (r_save s initializeAi)
  then show ?case by (simp add: tracked_ok_def handleSaveApiKey_def split: option.splits)
next
  case (r_new s env)
  then show ?case by (simp add: tracked_ok_handleNewSession)
next
  case (r_mic s env)
  then show ?case
    by (simp add: handleMicButtonClick_def tracked_ok_stopSession tracked_ok_handleNewSession)
      (simp add: tracked_ok_def)
next
  case (r_stop s)
  then show ?case by (simp add: tracked_ok_stopSession)
next
  case (r_open s)
  then show ?case by (simp add: tracked_ok_def onopen_def)
next
  case (r_resume s answer)
  then show ?case by (simp add: tracked_ok_onopen_resume)
next
  case (r_audio s)
  then show ?case by (simp add: tracked_ok_def onaudioprocess_def split: option.splits)
next
  case (r_then s i)
  then show ?case by (simp add: tracked_ok_def run_then_def)
next
  case (r_message s dec msg)
  then show ?case by (simp add: tracked_ok_onmessage)
next
  case (r_ended s source)
  then show ?case by (simp add: tracked_ok_def onended_def)
next
  case (r_error s)
  show ?case by (simp add: onerror_def tracked_ok_stopSession)
next
  case (r_close s)
  show ?case by (simp add: onclose_def tracked_ok_stopSession)
qed

text \<open>
  Stopping is idempotent: in every reachable state a second call of \<^verbatim>\<open>stopSession\<close>
  right after a first one leaves the state as the first one left it; it makes no call and
  chains no callback. The first call makes one release call for each resource a ref
  holds and chains the close of the session whose promise the ref holds; it stops every
  tracked source, and leaves all refs null, the tracked set empty, the cursor zero and the
  session inactive. Nothing is said here of a resource that no ref holds any more.
\<close>

theorem stopSession_idempotent:
  assumes "reachable s"
  shows "stopSession (stopSession s) = stopSession s
       \<and> calls (stopSession (stopSession s)) = calls (stopSession s)
       \<and> thenCallbacks (stopSession (stopSession s)) = thenCallbacks (stopSession s)
       \<and> calls (stopSession s) = calls s @ release_calls s
       \<and> thenCallbacks (stopSession s) = thenCallbacks s @ stop_callbacks s
       \<and> streamRef (stopSession s) = None
       \<and> scriptProcessorRef (stopSession s) = None
       \<and> mediaStreamSourceRef (stopSession s) = None
       \<and> inputAudioContextRef (stopSession s) = None
       \<and> outputAudioContextRef (stopSession s) = None
       \<and> sessionPromiseRef (stopSession s) = None
       \<and> audioPlaybackSources (stopSession s) = {}
       \<and> (\<forall>i \<in> audioPlaybackSources s.
            i < length (sources (stopSession s)) \<and> stopped (sources (stopSession s) ! i))
       \<and> nextStartTimeRef (stopSession s) = 0
       \<and> \<not> isSessionActive (stopSession s)"
proof -
  from assms have ok: "ctx_ok s" and tr: "tracked_ok s"
    by (rule reachable_ctx_ok, rule reachable_tracked_ok)
  have twice: "stopSession (stopSession s) = stopSession s" by (rule stopSession_twice)
  have c: "calls (stopSession s) = calls s @ release_calls s"
    using stop_calls_release [OF ok] by (simp add: stopSession_eq)
  have ctx: "inputAudioContextRef (stopSession s) = None"
    "outputAudioContextRef (stopSession s) = None"
    using ok by (simp_all add: stopSession_eq ctx_ok_def)
  have src: "\<forall>i \<in> audioPlaybackSources s.
      i < length (sources (stopSession s)) \<and> stopped (sources (stopSession s) ! i)"
    using tr by (simp add: tracked_ok_def stopSession_eq length_stop_sources nth_stop_sources)
  show ?thesis
    using twice c ctx src by (simp add: stopSession_eq)
qed

section \<open>The example states, evaluated\<close>

lemma example_ready_eq:
  "example_ready =
    \<lparr> isApiKeyModalOpen = False, messages = [], isSessionActive = False,
      statusMessage = ''API Key loaded. Click the microphone to start.'', isApiKeySet = True,
      apiKeyInput = [], currentUserTranscriptionRef = [],
      currentTutorTranscriptionRef = [], displayUserTranscription = [],
      displayTutorTranscription = [], aiRef = Some (GoogleGenAI (lit ''key'')),
      sessionPromiseRef = None,
      streamRef = None, inputAudioContextRef = None, outputAudioContextRef = None,
      scriptProcessorRef = None, mediaStreamSourceRef = None, nextStartTimeRef = 0,
      audioPlaybackSources = {}, googleApiKey = Some (lit ''key''), sources = [],
      calls = [], thenCallbacks = [] \<rparr>"
  by (simp add: example_ready_def mount_def example_initializeAi_def lit_def)

lemma example_connecting_eq:
  "example_connecting =
    \<lparr> isApiKeyModalOpen = False, messages = [], isSessionActive = False,
      statusMessage = ''Connecting to tutor...'', isApiKeySet = True,
      apiKeyInput = [], currentUserTranscriptionRef = [],
      currentTutorTranscriptionRef = [], displayUserTranscription = [],
      displayTutorTranscription = [], aiRef = Some (GoogleGenAI (lit ''key'')),
      sessionPromiseRef = Some (LiveSessionPromise 2),
      streamRef = None, inputAudioContextRef = Some (AudioContext 0 16000 Running),
      outputAudioContextRef = Some (AudioContext 1 24000 Running),
      scriptProcessorRef = None, mediaStreamSourceRef = None, nextStartTimeRef = 0,
      audioPlaybackSources = {}, googleApiKey = Some (lit ''key''), sources = [],
      calls = [NewAudioContext 0 16000, NewAudioContext 1 24000, ConnectLive 2],
      thenCallbacks = [] \<rparr>"
  by (simp add: example_connecting_def example_ready_eq handleNewSession_def Let_def
      INPUT_SAMPLE_RATE_def OUTPUT_SAMPLE_RATE_def)

lemma example_active_eq:
  "example_active =
    \<lparr> isApiKeyModalOpen = False, messages = [], isSessionActive = True,
      statusMessage = ''Connected! Start speaking when you are ready.'', isApiKeySet = True,
      apiKeyInput = [], currentUserTranscriptionRef = [],
      currentTutorTranscriptionRef = [], displayUserTranscription = [],
      displayTutorTranscription = [], aiRef = Some (GoogleGenAI (lit ''key'')),
      sessionPromiseRef = Some (LiveSessionPromise 2),
      streamRef = Some MediaStream, inputAudioContextRef = Some (AudioContext 0 16000 Running),
      outputAudioContextRef = Some (AudioContext 1 24000 Running),
      scriptProcessorRef = Some ScriptProcessorNode,
      mediaStreamSourceRef = Some MediaStreamAudioSourceNode, nextStartTimeRef = 0,
      audioPlaybackSources = {}, googleApiKey = Some (lit ''key''), sources = [],
      calls = [NewAudioContext 0 16000, NewAudioContext 1 24000, ConnectLive 2, GetUserMedia],
      thenCallbacks = [] \<rparr>"
  by (simp add: example_active_def example_connecting_eq onopen_def onopen_resume_def Let_def)

lemma example_playing_eq:
  "example_playing =
    \<lparr> isApiKeyModalOpen = False, messages = [], isSessionActive = True,
      statusMessage = ''Connected! Start speaking when you are ready.'', isApiKeySet = True,
      apiKeyInput = [], currentUserTranscriptionRef = [],
      currentTutorTranscriptionRef = [], displayUserTranscription = [],
      displayTutorTranscription = [], aiRef = Some (GoogleGenAI (lit ''key'')),
      sessionPromiseRef = Some (LiveSessionPromise 2),
      streamRef = Some MediaStream, inputAudioContextRef = Some (AudioContext 0 16000 Running),
      outputAudioContextRef = Some (AudioContext 1 24000 Running),
      scriptProcessorRef = Some ScriptProcessorNode,
      mediaStreamSourceRef = Some MediaStreamAudioSourceNode, nextStartTimeRef = 3 / 2,
      audioPlaybackSources = {0}, googleApiKey = Some (lit ''key''),
      sources = [\<lparr>start_when = 1 / 2, buffer_duration = 1, stopped = False\<rparr>],
      calls = [NewAudioContext 0 16000, NewAudioContext 1 24000, ConnectLive 2, GetUserMedia],
      thenCallbacks = [] \<rparr>"
  by (simp add: example_playing_def example_active_eq onmessage_def audio_message_def
      on_turnComplete_def on_outputTranscription_def on_inputTranscription_def play_part_def
      on_interrupted_def example_decoder_def duration_def lit_def Let_def)

lemma reachable_examples:
  "reachable example_ready" "reachable example_connecting" "reachable example_active"
  "reachable example_playing"
  unfolding example_ready_def example_connecting_def example_active_def example_playing_def
  by (intro reachable.intros)+

theorem stopSession_idempotent_witness:
  "reachable example_playing
   \<and> stopSession (stopSession example_playing) = stopSession example_playing
   \<and> calls (stopSession example_playing) =
       [NewAudioContext 0 16000, NewAudioContext 1 24000, ConnectLive 2, GetUserMedia,
        TrackStop, ScriptProcessorDisconnect, MediaStreamSourceDisconnect,
        AudioContextClose 0, AudioContextClose 1]
   \<and> thenCallbacks (stopSession example_playing) =
       [SessionCloseCallback (LiveSessionPromise 2)]
   \<and> stopped (sources (stopSession example_playing) ! 0)
   \<and> inputAudioContextRef (stopSession example_playing) = None
   \<and> nextStartTimeRef (stopSession example_playing) = 0"
proof -
  have r: "reachable example_playing" by (rule reachable_examples)
  have c: "calls example_playing @ release_calls example_playing =
       [NewAudioContext 0 16000, NewAudioContext 1 24000, ConnectLive 2, GetUserMedia,
        TrackStop, ScriptProcessorDisconnect, MediaStreamSourceDisconnect,
        AudioContextClose 0, AudioContextClose 1]"
    and cb: "thenCallbacks example_playing @ stop_callbacks example_playing =
       [SessionCloseCallback (LiveSessionPromise 2)]"
    and t: "0 \<in> audioPlaybackSources example_playing"
    by (simp_all add: example_playing_eq release_calls_def stop_callbacks_def)
  from stopSession_idempotent [OF r] r c cb t show ?thesis by auto
qed


section \<open>Session lifecycle\<close>

text \<open>
  When the user denies the microphone after the connection has opened, the rejection of
  \<^verbatim>\<open>getUserMedia\<close> reaches the \<^verbatim>\<open>catch\<close> block of \<^verbatim>\<open>onopen\<close>, which runs \<^verbatim>\<open>stopSession\<close>.
  In every reachable state the continuation of \<^verbatim>\<open>onopen\<close> is the whole stop sequence: every
  resource a ref holds gets its release call and the close of the session whose promise
  the ref holds is chained; the stream, capture node, audio context and session refs are
  null, the tracked set is empty, the cursor is zero and the session is inactive. Nothing
  is said here of a resource that no ref holds any more.
\<close>

theorem microphone_denied_stops_session:
  assumes "reachable s"
  shows "onopen_resume Denied s =
           stopSession (s\<lparr>statusMessage := ''Microphone access denied. Please allow permission.''\<rparr>)
       \<and> calls (onopen_resume Denied s) = calls s @ release_calls s
       \<and> thenCallbacks (onopen_resume Denied s) = thenCallbacks s @ stop_callbacks s
       \<and> streamRef (onopen_resume Denied s) = None
       \<and> scriptProcessorRef (onopen_resume Denied s) = None
       \<and> mediaStreamSourceRef (onopen_resume Denied s) = None
       \<and> inputAudioContextRef (onopen_resume Denied s) = None
       \<and> outputAudioContextRef (onopen_resume Denied s) = None
       \<and> sessionPromiseRef (onopen_resume Denied s) = None
       \<and> audioPlaybackSources (onopen_resume Denied s) = {}
       \<and> nextStartTimeRef (onopen_resume Denied s) = 0
       \<and> \<not> isSessionActive (onopen_resume Denied s)"
proof -
  from assms have ok: "ctx_ok s" by (rule reachable_ctx_ok)
  have c: "stop_calls s = release_calls s" using ok by (rule stop_calls_release)
  show ?thesis
    using ok c
    by (simp add: onopen_resume_def onopen_catch_def stopSession_eq ctx_ok_def stop_calls_def
        release_calls_def stop_callbacks_def)
qed

theorem microphone_denied_stops_session_witness:
  "reachable (onopen example_connecting)
   \<and> calls (onopen_resume Denied (onopen example_connecting)) =
       [NewAudioContext 0 16000, NewAudioContext 1 24000, ConnectLive 2, GetUserMedia,
        AudioContextClose 0, AudioContextClose 1]
   \<and> thenCallbacks (onopen_resume Denied (onopen example_connecting)) =
       [SessionCloseCallback (LiveSessionPromise 2)]
   \<and> streamRef (onopen_resume Denied (onopen example_connecting)) = None
   \<and> inputAudioContextRef (onopen_resume Denied (onopen example_connecting)) = None
   \<and> outputAudioContextRef (onopen_resume Denied (onopen example_connecting)) = None
   \<and> sessionPromiseRef (onopen_resume Denied (onopen example_connecting)) = None
   \<and> \<not> isSessionActive (onopen_resume Denied (onopen example_connecting))"
proof -
  have r: "reachable (onopen example_connecting)"
    by (intro reachable.intros reachable_examples)
  have c: "calls (onopen example_connecting) @ release_calls (onopen example_connecting) =
       [NewAudioContext 0 16000, NewAudioContext 1 24000, ConnectLive 2, GetUserMedia,
        AudioContextClose 0, AudioContextClose 1]"
    and cb: "thenCallbacks (onopen example_connecting) @
        stop_callbacks (onopen example_connecting) =
       [SessionCloseCallback (LiveSessionPromise 2)]"
    by (simp_all add: example_connecting_eq onopen_def release_calls_def stop_callbacks_def)
  from microphone_denied_stops_session [OF r, THEN conjunct2] r c cb show ?thesis by simp
qed

section \<open>A second start while the first one is connecting\<close>

text \<open>
  \<^verbatim>\<open>handleNewSession\<close> stops the session there is before it starts a new one, but only if
  \<^verbatim>\<open>isSessionActive\<close> is set, and that happens in \<^verbatim>\<open>onopen\<close>. A start request that comes
  while the first start is still connecting (the microphone button is enabled then, and
  a click on it calls \<^verbatim>\<open>handleNewSession\<close>) creates a second pair of audio contexts and a
  second connection and writes them over the first in the refs.
\<close>

lemma example_double_start_eq:
  "example_double_start =
    \<lparr> isApiKeyModalOpen = False, messages = [], isSessionActive = False,
      statusMessage = ''Connecting to tutor...'', isApiKeySet = True,
      apiKeyInput = [], currentUserTranscriptionRef = [],
      currentTutorTranscriptionRef = [], displayUserTranscription = [],
      displayTutorTranscription = [], aiRef = Some (GoogleGenAI (lit ''key'')),
      sessionPromiseRef = Some (LiveSessionPromise 5),
      streamRef = None, inputAudioContextRef = Some (AudioContext 3 16000 Running),
      outputAudioContextRef = Some (AudioContext 4 24000 Running),
      scriptProcessorRef = None, mediaStreamSourceRef = None, nextStartTimeRef = 0,
      audioPlaybackSources = {}, googleApiKey = Some (lit ''key''), sources = [],
      calls = [NewAudioContext 0 16000, NewAudioContext 1 24000, ConnectLive 2,
               NewAudioContext 3 16000, NewAudioContext 4 24000, ConnectLive 5],
      thenCallbacks = [] \<rparr>"
  by (simp add: example_double_start_def example_connecting_eq handleNewSession_def Let_def
      INPUT_SAMPLE_RATE_def OUTPUT_SAMPLE_RATE_def)

lemma example_double_start_by_click:
  "example_double_start = handleMicButtonClick NoFailure (handleMicButtonClick NoFailure example_ready)"
  by (simp add: handleMicButtonClick_def example_double_start_def example_connecting_def
      [symmetric] example_connecting_eq)
    (simp add: example_connecting_def handleMicButtonClick_def example_ready_eq)

lemma reachable_example_double_start: "reachable example_double_start"
  unfolding example_double_start_def by (intro reachable.intros reachable_examples)

text \<open>
  Claim C4, at an input where the code fails it. After two start requests in a row,
  stopping twice does leave the state of stopping once, with all refs null; but the stop
  closes the second pair of audio contexts only and chains the close of the second
  connection only. The audio contexts 0 and 1 of the first start are still open, and so
  is its connection 2, also after the chained close has run: not all capture and playback
  resources are released.
\<close>

theorem stopSession_after_double_start:
  "reachable example_double_start
   \<and> example_double_start =
       handleMicButtonClick NoFailure (handleMicButtonClick NoFailure example_ready)
   \<and> stopSession (stopSession example_double_start) = stopSession example_double_start
   \<and> inputAudioContextRef (stopSession example_double_start) = None
   \<and> outputAudioContextRef (stopSession example_double_start) = None
   \<and> sessionPromiseRef (stopSession example_double_start) = None
   \<and> \<not> isSessionActive (stopSession example_double_start)
   \<and> calls (stopSession example_double_start) =
       [NewAudioContext 0 16000, NewAudioContext 1 24000, ConnectLive 2,
        NewAudioContext 3 16000, NewAudioContext 4 24000, ConnectLive 5,
        AudioContextClose 3, AudioContextClose 4]
   \<and> thenCallbacks (stopSession example_double_start) =
       [SessionCloseCallback (LiveSessionPromise 5)]
   \<and> open_contexts (calls (stopSession example_double_start)) = [0, 1]
   \<and> open_sessions (calls (run_then 0 (stopSession example_double_start))) = [2]
   \<and> thenCallbacks (run_then 0 (stopSession example_double_start)) = []"
proof -
  have c: "calls (stopSession example_double_start) =
       [NewAudioContext 0 16000, NewAudioContext 1 24000, ConnectLive 2,
        NewAudioContext 3 16000, NewAudioContext 4 24000, ConnectLive 5,
        AudioContextClose 3, AudioContextClose 4]"
    and cb: "thenCallbacks (stopSession example_double_start) =
       [SessionCloseCallback (LiveSessionPromise 5)]"
    and refs: "inputAudioContextRef (stopSession example_double_start) = None"
      "outputAudioContextRef (stopSession example_double_start) = None"
      "sessionPromiseRef (stopSession example_double_start) = None"
      "\<not> isSessionActive (stopSession example_double_start)"
    by (simp_all add: stopSession_eq example_double_start_eq stop_calls_def stop_callbacks_def
        context_close_call_def after_close_def)
  have run: "calls (run_then 0 (stopSession example_double_start)) =
       [NewAudioContext 0 16000, NewAudioContext 1 24000, ConnectLive 2,
        NewAudioContext 3 16000, NewAudioContext 4 24000, ConnectLive 5,
        AudioContextClose 3, AudioContextClose 4, SessionClose 5]"
    "thenCallbacks (run_then 0 (stopSession example_double_start)) = []"
    by (simp_all add: run_then_def run_callback_def c cb)
  have o: "open_contexts (calls (stopSession example_double_start)) = [0, 1]"
    unfolding c by (simp add: open_contexts_def)
  have s: "open_sessions (calls (run_then 0 (stopSession example_double_start))) = [2]"
    unfolding run by (simp add: open_sessions_def)
  from reachable_example_double_start example_double_start_by_click
    stopSession_twice [of example_double_start] refs c cb o s run(2)
  show ?thesis by blast
qed

text \<open>
  Claim C7, at an input where the code fails it. After two start requests in a row the
  connection opens and the user denies the microphone. The \<^verbatim>\<open>catch\<close> block of \<^verbatim>\<open>onopen\<close> runs
  the stop sequence, which leaves all refs null and the session inactive; but the audio
  contexts 0 and 1 of the first start remain open, and so does its connection 2.
\<close>

theorem microphone_denied_after_double_start:
  "reachable (onopen example_double_start)
   \<and> example_double_start =
       handleMicButtonClick NoFailure (handleMicButtonClick NoFailure example_ready)
   \<and> onopen_resume Denied (onopen example_double_start) =
       stopSession ((onopen example_double_start)
         \<lparr>statusMessage := ''Microphone access denied. Please allow permission.''\<rparr>)
   \<and> streamRef (onopen_resume Denied (onopen example_double_start)) = None
   \<and> scriptProcessorRef (onopen_resume Denied (onopen example_double_start)) = None
   \<and> mediaStreamSourceRef (onopen_resume Denied (onopen example_double_start)) = None
   \<and> inputAudioContextRef (onopen_resume Denied (onopen example_double_start)) = None
   \<and> outputAudioContextRef (onopen_resume Denied (onopen example_double_start)) = None
   \<and> sessionPromiseRef (onopen_resume Denied (onopen example_double_start)) = None
   \<and> \<not> isSessionActive (onopen_resume Denied (onopen example_double_start))
   \<and> calls (onopen_resume Denied (onopen example_double_start)) =
       [NewAudioContext 0 16000, NewAudioContext 1 24000, ConnectLive 2,
        NewAudioContext 3 16000, NewAudioContext 4 24000, ConnectLive 5, GetUserMedia,
        AudioContextClose 3, AudioContextClose 4]
   \<and> open_contexts (calls (onopen_resume Denied (onopen example_double_start))) = [0, 1]
   \<and> open_sessions
       (calls (run_then 0 (onopen_resume Denied (onopen example_double_start)))) = [2]"
proof -
  let ?t = "onopen_resume Denied (onopen example_double_start)"
  have r: "reachable (onopen example_double_start)"
    by (intro reachable.intros reachable_example_double_start)
  have e: "?t = stopSession ((onopen example_double_start)
         \<lparr>statusMessage := ''Microphone access denied. Please allow permission.''\<rparr>)"
    by (simp add: onopen_resume_def onopen_catch_def)
  have c: "calls ?t =
       [NewAudioContext 0 16000, NewAudioContext 1 24000, ConnectLive 2,
        NewAudioContext 3 16000, NewAudioContext 4 24000, ConnectLive 5, GetUserMedia,
        AudioContextClose 3, AudioContextClose 4]"
    and cb: "thenCallbacks ?t = [SessionCloseCallback (LiveSessionPromise 5)]"
    and refs: "streamRef ?t = None" "scriptProcessorRef ?t = None"
      "mediaStreamSourceRef ?t = None" "inputAudioContextRef ?t = None"
      "outputAudioContextRef ?t = None" "sessionPromiseRef ?t = None"
      "\<not> isSessionActive ?t"
    unfolding e
    by (simp_all add: stopSession_eq example_double_start_eq onopen_def stop_calls_def
        stop_callbacks_def context_close_call_def after_close_def)
  have run: "calls (run_then 0 ?t) =
       [NewAudioContext 0 16000, NewAudioContext 1 24000, ConnectLive 2,
        NewAudioContext 3 16000, NewAudioContext 4 24000, ConnectLive 5, GetUserMedia,
        AudioContextClose 3, AudioContextClose 4, SessionClose 5]"
    by (simp add: run_then_def run_callback_def c cb)
  have o: "open_contexts (calls ?t) = [0, 1]"
    unfolding c by (simp add: open_contexts_def)
  have s: "open_sessions (calls (run_then 0 ?t)) = [2]"
    unfolding run by (simp add: open_sessions_def)
  from r example_double_start_by_click e refs c o s show ?thesis by blast
qed

section \<open>The conversation across stop and start\<close>


text \<open>
  Claim C8. \<^verbatim>\<open>stopSession\<close> does not touch the conversation: in every state the message
  log, both transcript accumulators and both live-display values are after the call what
  they were before it.
\<close>

theorem stopSession_keeps_transcript:
  "messages (stopSession s) = messages s
   \<and> currentUserTranscriptionRef (stopSession s) = currentUserTranscriptionRef s
   \<and> currentTutorTranscriptionRef (stopSession s) = currentTutorTranscriptionRef s
   \<and> displayUserTranscription (stopSession s) = displayUserTranscription s
   \<and> displayTutorTranscription (stopSession s) = displayTutorTranscription s"
  by (simp add: stopSession_eq)

theorem stopSession_keeps_transcript_witness:
  "messages (stopSession example_talking) = [\<lparr>role = User, content = lit ''Hello''\<rparr>]
   \<and> currentTutorTranscriptionRef (stopSession example_talking) = lit ''Hi th''
   \<and> displayTutorTranscription (stopSession example_talking) = lit ''Hi th''"
proof -
  have "messages example_talking = [\<lparr>role = User, content = lit ''Hello''\<rparr>]"
    "currentTutorTranscriptionRef example_talking = lit ''Hi th''"
    "displayTutorTranscription example_talking = lit ''Hi th''"
    by (simp_all add: example_talking_def)
  with stopSession_keeps_transcript [of example_talking] show ?thesis by simp
qed

lemma handleNewSession_with_credential:
  assumes "aiRef s \<noteq> None"
  shows "transcript_of (handleNewSession env s) = ([], [], [], [], [])"
proof -
  define s1 where "s1 = (if isSessionActive s then stopSession s else s)"
  have "aiRef s1 \<noteq> None" using assms by (simp add: s1_def stopSession_eq)
  then show ?thesis
    unfolding handleNewSession_def Let_def s1_def [symmetric]
    by (cases env) (auto simp add: start_failed_def transcript_of_def)
qed

text \<open>
  Claim C9. With a credential present (an initialised client in \<^verbatim>\<open>aiRef\<close>),
  \<^verbatim>\<open>handleNewSession\<close> resets the conversation, whatever happens when it then opens the
  audio contexts and the connection: the message log is empty, and both accumulators and
  both live-display values are the empty string.
\<close>

theorem handleNewSession_resets_conversation:
  assumes "aiRef s \<noteq> None"
  shows "messages (handleNewSession env s) = []
       \<and> currentUserTranscriptionRef (handleNewSession env s) = []
       \<and> currentTutorTranscriptionRef (handleNewSession env s) = []
       \<and> displayUserTranscription (handleNewSession env s) = []
       \<and> displayTutorTranscription (handleNewSession env s) = []"
  using handleNewSession_with_credential [OF assms, of env] by (simp add: transcript_of_def)

theorem handleNewSession_resets_conversation_witness:
  "aiRef example_talking \<noteq> None
   \<and> messages example_talking \<noteq> []
   \<and> messages (handleNewSession NoFailure example_talking) = []
   \<and> currentTutorTranscriptionRef (handleNewSession NoFailure example_talking) = []
   \<and> displayTutorTranscription (handleNewSession NoFailure example_talking) = []"
proof -
  have a: "aiRef example_talking \<noteq> None" and m: "messages example_talking \<noteq> []"
    by (simp_all add: example_talking_def example_active_eq)
  from handleNewSession_resets_conversation [OF a, of NoFailure] a m show ?thesis by simp
qed

lemma opening_calls_stopSession:
  "filter is_opening_call (calls (stopSession s)) = filter is_opening_call (calls s)"
  by (simp add: stopSession_eq stop_calls_def context_close_call_def split: option.splits)

text \<open>
  Claim C6. Without a credential (\<^verbatim>\<open>aiRef\<close> is null) \<^verbatim>\<open>handleNewSession\<close> rejects the
  request: the status message tells that the key is not set and the credential dialogue
  is opened; no audio context is created and no connection is opened (the opening calls
  made so far are unchanged and no ref receives a new object), and the status never
  becomes the connecting one.
\<close>

theorem handleNewSession_without_credential:
  assumes "aiRef s = None"
  shows "statusMessage (handleNewSession env s) = ''API Key not set. Please set it in the settings.''
       \<and> isApiKeyModalOpen (handleNewSession env s)
       \<and> statusMessage (handleNewSession env s) \<noteq> ''Connecting to tutor...''
       \<and> filter is_opening_call (calls (handleNewSession env s)) =
           filter is_opening_call (calls s)
       \<and> (sessionPromiseRef (handleNewSession env s) = None \<or>
          sessionPromiseRef (handleNewSession env s) = sessionPromiseRef s)
       \<and> (inputAudioContextRef (handleNewSession env s) = None \<or>
          inputAudioContextRef (handleNewSession env s) = inputAudioContextRef s)
       \<and> (outputAudioContextRef (handleNewSession env s) = None \<or>
          outputAudioContextRef (handleNewSession env s) = outputAudioContextRef s)"
proof -
  define s1 where "s1 = (if isSessionActive s then stopSession s else s)"
  have a: "aiRef s1 = None" using assms by (simp add: s1_def stopSession_eq)
  have h: "handleNewSession env s =
      s1\<lparr>statusMessage := ''API Key not set. Please set it in the settings.'',
          isApiKeyModalOpen := True\<rparr>"
    unfolding handleNewSession_def Let_def s1_def [symmetric] using a by simp
  have c: "filter is_opening_call (calls s1) = filter is_opening_call (calls s)"
    by (simp add: s1_def opening_calls_stopSession)
  have r: "sessionPromiseRef s1 = None \<or> sessionPromiseRef s1 = sessionPromiseRef s"
    "inputAudioContextRef s1 = None \<or> inputAudioContextRef s1 = inputAudioContextRef s"
    "outputAudioContextRef s1 = None \<or> outputAudioContextRef s1 = outputAudioContextRef s"
    by (auto simp add: s1_def stopSession_eq after_close_def split: option.splits)
  show ?thesis unfolding h using c r by simp
qed

theorem handleNewSession_without_credential_witness:
  "aiRef (mount example_initializeAi None) = None
   \<and> handleNewSession NoFailure (mount example_initializeAi None) =
       (mount example_initializeAi None)
         \<lparr>statusMessage := ''API Key not set. Please set it in the settings.''\<rparr>
   \<and> calls (handleNewSession NoFailure (mount example_initializeAi None)) = []
   \<and> sessionPromiseRef (handleNewSession NoFailure (mount example_initializeAi None)) = None
   \<and> isApiKeyModalOpen (handleNewSession NoFailure (mount example_initializeAi None))"
proof -
  have a: "aiRef (mount example_initializeAi None) = None" by (simp add: mount_def)
  have e: "handleNewSession NoFailure (mount example_initializeAi None) =
       (mount example_initializeAi None)
         \<lparr>statusMessage := ''API Key not set. Please set it in the settings.''\<rparr>"
    by (simp add: mount_def handleNewSession_def)
  have c: "calls (mount example_initializeAi None) = []"
    "sessionPromiseRef (mount example_initializeAi None) = None"
    by (simp_all add: mount_def)
  from handleNewSession_without_credential [OF a, of NoFailure] a e c show ?thesis by simp
qed

text \<open>
  Claim C10. The interruption block of \<^verbatim>\<open>onmessage\<close> changes playback state only: the
  message log, both accumulators, the session ref and the session-active flag are
  unchanged, and putting back the source nodes, the tracked set and the cursor gives the
  state before the block. A message that carries nothing but the interruption flag
  therefore changes the stopped flags of the tracked nodes, the tracked set and the cursor,
  and nothing else.
\<close>

theorem interruption_changes_playback_only:
  "messages (on_interrupted sc s) = messages s
   \<and> currentUserTranscriptionRef (on_interrupted sc s) = currentUserTranscriptionRef s
   \<and> currentTutorTranscriptionRef (on_interrupted sc s) = currentTutorTranscriptionRef s
   \<and> sessionPromiseRef (on_interrupted sc s) = sessionPromiseRef s
   \<and> isSessionActive (on_interrupted sc s) = isSessionActive s
   \<and> (on_interrupted sc s)\<lparr>sources := sources s,
        audioPlaybackSources := audioPlaybackSources s,
        nextStartTimeRef := nextStartTimeRef s\<rparr> = s
   \<and> onmessage dec interruption_message s =
       (Returned, s\<lparr>sources := stop_sources (audioPlaybackSources s) (sources s),
                    audioPlaybackSources := {}, nextStartTimeRef := 0\<rparr>)
   \<and> messages (snd (onmessage dec interruption_message s)) = messages s
   \<and> currentUserTranscriptionRef (snd (onmessage dec interruption_message s)) =
       currentUserTranscriptionRef s
   \<and> currentTutorTranscriptionRef (snd (onmessage dec interruption_message s)) =
       currentTutorTranscriptionRef s
   \<and> sessionPromiseRef (snd (onmessage dec interruption_message s)) = sessionPromiseRef s
   \<and> isSessionActive (snd (onmessage dec interruption_message s)) = isSessionActive s"
proof -
  have m: "onmessage dec interruption_message s =
       (Returned, s\<lparr>sources := stop_sources (audioPlaybackSources s) (sources s),
                    audioPlaybackSources := {}, nextStartTimeRef := 0\<rparr>)"
    by (simp add: onmessage_def interruption_message_def on_turnComplete_def
        on_outputTranscription_def on_inputTranscription_def on_interrupted_def)
  show ?thesis unfolding m by (simp add: on_interrupted_def)
qed

theorem interruption_changes_playback_only_witness:
  "snd (onmessage example_decoder interruption_message example_playing) =
     example_playing\<lparr>sources := [\<lparr>start_when = 1 / 2, buffer_duration = 1, stopped = True\<rparr>],
        audioPlaybackSources := {}, nextStartTimeRef := 0\<rparr>
   \<and> sessionPromiseRef (snd (onmessage example_decoder interruption_message example_playing)) =
       Some (LiveSessionPromise 2)
   \<and> isSessionActive (snd (onmessage example_decoder interruption_message example_playing))"
proof -
  have "stop_sources {0} [\<lparr>start_when = 1 / 2, buffer_duration = 1, stopped = False\<rparr>] =
      [\<lparr>start_when = 1 / 2, buffer_duration = 1, stopped = True\<rparr>]"
    by (simp add: stop_sources_def)
  with interruption_changes_playback_only
    [of "the interruption_message" example_playing example_decoder]
  show ?thesis by (simp add: example_playing_eq)
qed

section \<open>The playback scheduler\<close>

text \<open>The schedule of a list of fragments, on its own.\<close>

lemma length_schedule: "length (schedule c fs) = length fs"
  by (induction fs arbitrary: c) simp_all

lemma schedule_append:
  "schedule c (fs @ gs) = schedule c fs @ schedule (cursor_after c fs) gs"
  by (induction fs arbitrary: c) simp_all

lemma cursor_after_append:
  "cursor_after c (fs @ gs) = cursor_after (cursor_after c fs) gs"
  by (induction fs arbitrary: c) simp_all

lemma cursor_advance: "0 \<le> d \<Longrightarrow> c \<le> max c now + (d::real)"
  by (simp add: max_def)

lemma cursor_after_mono:
  "list_all (\<lambda>f. 0 \<le> snd f) fs \<Longrightarrow> c \<le> cursor_after c fs"
proof (induction fs arbitrary: c)
  case Nil
  show ?case by simp
next
  case (Cons f fs)
  then have "max c (fst f) + snd f \<le> cursor_after (max c (fst f) + snd f) fs" by simp
  moreover have "c \<le> max c (fst f) + snd f" using Cons.prems by (simp add: cursor_advance)
  ultimately show ?case by simp
qed

lemma schedule_after_cursor:
  "list_all (\<lambda>f. 0 \<le> snd f) fs \<Longrightarrow> n \<in> set (schedule c fs) \<Longrightarrow> c \<le> start_when n"
proof (induction fs arbitrary: c)
  case Nil
  then show ?case by simp
next
  case (Cons f fs)
  from Cons.prems(2) consider "n = \<lparr>start_when = max c (fst f), buffer_duration = snd f, stopped = False\<rparr>"
    | "n \<in> set (schedule (max c (fst f) + snd f) fs)" by auto
  then show ?case
  proof cases
    case 1
    then show ?thesis by simp
  next
    case 2
    with Cons.IH [of "max c (fst f) + snd f"] Cons.prems(1)
    have "max c (fst f) + snd f \<le> start_when n" by simp
    moreover have "c \<le> max c (fst f) + snd f" using Cons.prems(1) by (simp add: cursor_advance)
    ultimately show ?thesis by simp
  qed
qed

lemma schedule_start:
  "i < length fs \<Longrightarrow>
   start_when (schedule c fs ! i) =
     max (if i = 0 then c else end_time (schedule c fs ! (i - 1))) (fst (fs ! i))"
proof (induction fs arbitrary: c i)
  case Nil
  then show ?case by simp
next
  case (Cons f fs)
  show ?case
  proof (cases i)
    case 0
    then show ?thesis by simp
  next
    case (Suc j)
    with Cons.prems have j: "j < length fs" by simp
    show ?thesis
    proof (cases j)
      case 0
      with Suc j show ?thesis
        using Cons.IH [of 0 "max c (fst f) + snd f"] by (simp add: end_time_def)
    next
      case (Suc k)
      with \<open>i = Suc j\<close> j show ?thesis
        using Cons.IH [of j "max c (fst f) + snd f"] by simp
    qed
  qed
qed

lemma schedule_no_overlap:
  "list_all (\<lambda>f. 0 \<le> snd f) fs \<Longrightarrow> i < j \<Longrightarrow> j < length fs \<Longrightarrow>
   end_time (schedule c fs ! i) \<le> start_when (schedule c fs ! j)"
proof (induction fs arbitrary: c i j)
  case Nil
  then show ?case by simp
next
  case (Cons f fs)
  from Cons.prems obtain j' where j: "j = Suc j'" "j' < length fs" by (cases j) simp_all
  have tl: "list_all (\<lambda>f. 0 \<le> snd f) fs" using Cons.prems(1) by simp
  show ?case
  proof (cases i)
    case 0
    have "schedule (max c (fst f) + snd f) fs ! j' \<in> set (schedule (max c (fst f) + snd f) fs)"
      using j(2) by (simp add: length_schedule)
    from schedule_after_cursor [OF tl this]
    show ?thesis using 0 j by (simp add: end_time_def)
  next
    case (Suc i')
    with Cons.prems j have "i' < j'" by simp
    from Cons.IH [OF tl this j(2), of "max c (fst f) + snd f"] Suc j
    show ?thesis by simp
  qed
qed

lemma schedule_duration:
  "list_all (\<lambda>f. 0 \<le> snd f) fs \<Longrightarrow> i < length fs \<Longrightarrow>
   start_when (schedule c fs ! i) \<le> end_time (schedule c fs ! i)"
proof (induction fs arbitrary: c i)
  case Nil
  then show ?case by simp
next
  case (Cons f fs)
  then show ?case by (cases i) (simp_all add: end_time_def)
qed

lemma cursor_after_last:
  "cursor_after c fs = (if fs = [] then c else end_time (last (schedule c fs)))"
proof (induction fs arbitrary: c)
  case Nil
  show ?case by simp
next
  case (Cons f fs)
  show ?case
  proof (cases fs)
    case Nil
    then show ?thesis by (simp add: end_time_def)
  next
    case (Cons g gs)
    then have "schedule (max c (fst f) + snd f) fs \<noteq> []" by simp
    with Cons.IH [of "max c (fst f) + snd f"] Cons show ?thesis by simp
  qed
qed

lemma duration_nonneg: "0 \<le> duration b"
  by (simp add: duration_def)

lemma decoded_duration_nonneg: "list_all (\<lambda>f. 0 \<le> snd f) (map (decoded_duration dec) fs)"
  by (induction fs) (simp_all add: decoded_duration_def duration_nonneg split: option.splits)

text \<open>The loop over the parts follows the schedule.\<close>

lemma session_of_output:
  "session_of s' = session_of s \<Longrightarrow> outputAudioContextRef s' = outputAudioContextRef s"
  by (simp add: session_of_def)

lemma play_part_schedule:
  assumes "outputAudioContextRef s \<noteq> None" and "list_all (decodable dec) (part_audio tp)"
  shows "fst (play_part dec tp s) = Returned"
    and "sources (snd (play_part dec tp s)) =
           sources s @ schedule (nextStartTimeRef s) (map (decoded_duration dec) (part_audio tp))"
    and "nextStartTimeRef (snd (play_part dec tp s)) =
           cursor_after (nextStartTimeRef s) (map (decoded_duration dec) (part_audio tp))"
  using assms
  by (auto simp add: play_part_def part_audio_def decodable_def decoded_duration_def Let_def
      split: option.splits)

lemma play_parts_schedule:
  assumes "outputAudioContextRef s \<noteq> None"
    and "list_all (decodable dec) (concat (map part_audio tps))"
  shows "fst (play_parts dec tps s) = Returned \<and>
         sources (snd (play_parts dec tps s)) =
           sources s @ schedule (nextStartTimeRef s)
             (map (decoded_duration dec) (concat (map part_audio tps))) \<and>
         nextStartTimeRef (snd (play_parts dec tps s)) =
           cursor_after (nextStartTimeRef s)
             (map (decoded_duration dec) (concat (map part_audio tps)))"
  using assms
proof (induction tps arbitrary: s)
  case Nil
  show ?case by simp
next
  case (Cons tp tps)
  obtain out s' where p: "play_part dec tp s = (out, s')" by (cases "play_part dec tp s")
  from Cons.prems have d1: "list_all (decodable dec) (part_audio tp)"
    and d2: "list_all (decodable dec) (concat (map part_audio tps))" by simp_all
  from play_part_schedule [OF Cons.prems(1) d1] p
  have out: "out = Returned"
    and src: "sources s' =
      sources s @ schedule (nextStartTimeRef s) (map (decoded_duration dec) (part_audio tp))"
    and cur: "nextStartTimeRef s' =
      cursor_after (nextStartTimeRef s) (map (decoded_duration dec) (part_audio tp))"
    by simp_all
  have ctx: "outputAudioContextRef s' \<noteq> None"
    using session_of_output [OF play_part_session, of dec tp s] p Cons.prems(1) by simp
  from Cons.IH [OF ctx d2] p out src cur show ?case
    by (simp add: schedule_append cursor_after_append)
qed

lemma transcript_step_playback: "playback_of (transcript_step sc s) = playback_of s"
  by (simp add: transcript_step_def on_turnComplete_def on_outputTranscription_def
      on_inputTranscription_def playback_of_def Let_def split: option.splits)

lemma onmessage_schedule:
  assumes ctx: "outputAudioContextRef s \<noteq> None"
    and unint: "\<not> is_interrupted msg"
    and dec: "list_all (decodable dec) (audio_fragments msg)"
  shows "sources (snd (onmessage dec msg s)) =
           sources s @ schedule (nextStartTimeRef s)
             (map (decoded_duration dec) (audio_fragments msg)) \<and>
         nextStartTimeRef (snd (onmessage dec msg s)) =
           cursor_after (nextStartTimeRef s) (map (decoded_duration dec) (audio_fragments msg))"
proof (cases msg)
  case None
  then show ?thesis by (simp add: onmessage_None audio_fragments_def)
next
  case (Some sc)
  let ?s1 = "transcript_step sc s"
  from unint Some have ni: "\<not> interrupted sc" by (simp add: is_interrupted_def)
  have pb: "sources ?s1 = sources s" "nextStartTimeRef ?s1 = nextStartTimeRef s"
    using transcript_step_playback [of sc s] by (simp_all add: playback_of_def)
  have ctx1: "outputAudioContextRef ?s1 \<noteq> None"
    using session_of_output [OF transcript_step_session, of sc s] ctx by simp
  show ?thesis
  proof (cases "modelTurn_parts sc")
    case None
    with Some ni pb show ?thesis
      by (simp add: onmessage_def transcript_step_def [symmetric] on_interrupted_def
          audio_fragments_def)
  next
    case (Some parts)
    with \<open>msg = Some sc\<close> dec
    have d: "list_all (decodable dec) (concat (map part_audio parts))"
      by (simp add: audio_fragments_def)
    obtain out s2 where p: "play_parts dec parts ?s1 = (out, s2)"
      by (cases "play_parts dec parts ?s1")
    from play_parts_schedule [OF ctx1 d] p pb Some \<open>msg = Some sc\<close> ni show ?thesis
      by (simp add: onmessage_def transcript_step_def [symmetric] on_interrupted_def
          audio_fragments_def)
  qed
qed

lemma run_messages_schedule:
  assumes "outputAudioContextRef s \<noteq> None"
    and "list_all (\<lambda>m. \<not> is_interrupted m) ms"
    and "list_all (decodable dec) (concat (map audio_fragments ms))"
  shows "sources (run_messages dec ms s) =
           sources s @ schedule (nextStartTimeRef s)
             (map (decoded_duration dec) (concat (map audio_fragments ms))) \<and>
         nextStartTimeRef (run_messages dec ms s) =
           cursor_after (nextStartTimeRef s)
             (map (decoded_duration dec) (concat (map audio_fragments ms))) \<and>
         outputAudioContextRef (run_messages dec ms s) \<noteq> None"
  using assms
proof (induction ms arbitrary: s)
  case Nil
  then show ?case by simp
next
  case (Cons m ms)
  let ?s1 = "snd (onmessage dec m s)"
  from Cons.prems have m: "\<not> is_interrupted m" "list_all (decodable dec) (audio_fragments m)"
    and ms: "list_all (\<lambda>m. \<not> is_interrupted m) ms"
      "list_all (decodable dec) (concat (map audio_fragments ms))"
    by simp_all
  have ctx: "outputAudioContextRef ?s1 \<noteq> None"
    using session_of_output [OF onmessage_session, of dec m s] Cons.prems(1) by simp
  from Cons.IH [OF ctx ms] onmessage_schedule [OF Cons.prems(1) m]
  show ?case by (simp add: schedule_append cursor_after_append)
qed

lemma run_messages_cursor_mono:
  assumes "outputAudioContextRef s \<noteq> None"
    and "\<forall>m \<in> set ms. \<not> is_interrupted m \<and> list_all (decodable dec) (audio_fragments m)"
  shows "nextStartTimeRef s \<le> nextStartTimeRef (run_messages dec ms s)"
    and "outputAudioContextRef (run_messages dec ms s) \<noteq> None"
proof -
  from assms(2) have a: "list_all (\<lambda>m. \<not> is_interrupted m) ms"
    and b: "list_all (decodable dec) (concat (map audio_fragments ms))"
    by (simp_all add: list_all_iff)
  from run_messages_schedule [OF assms(1) a b]
  show "nextStartTimeRef s \<le> nextStartTimeRef (run_messages dec ms s)"
    and "outputAudioContextRef (run_messages dec ms s) \<noteq> None"
    by (simp_all add: cursor_after_mono decoded_duration_nonneg)
qed

lemma run_messages_prefix_mono:
  assumes ctx: "outputAudioContextRef s \<noteq> None"
    and ok: "\<forall>m \<in> set ms. \<not> is_interrupted m \<and> list_all (decodable dec) (audio_fragments m)"
    and lk: "l \<le> k"
  shows "nextStartTimeRef (run_messages dec (take l ms) s) \<le>
         nextStartTimeRef (run_messages dec (take k ms) s)"
proof -
  let ?pre = "take l ms" and ?mid = "drop l (take k ms)"
  have "take l (take k ms) = take l ms" using lk by (simp add: min_def)
  with append_take_drop_id [of l "take k ms"]
  have split: "take k ms = ?pre @ ?mid" by simp
  have pre: "\<forall>m \<in> set ?pre. \<not> is_interrupted m \<and> list_all (decodable dec) (audio_fragments m)"
    using ok set_take_subset [of l ms] by blast
  have mid: "\<forall>m \<in> set ?mid. \<not> is_interrupted m \<and> list_all (decodable dec) (audio_fragments m)"
    using ok set_drop_subset [of l "take k ms"] set_take_subset [of k ms] by blast
  have ctx1: "outputAudioContextRef (run_messages dec ?pre s) \<noteq> None"
    by (rule run_messages_cursor_mono(2) [OF ctx pre])
  have run: "run_messages dec (take k ms) s =
      run_messages dec ?mid (run_messages dec ?pre s)"
    by (subst split) (rule run_messages_append)
  have "nextStartTimeRef (run_messages dec ?pre s) \<le>
        nextStartTimeRef (run_messages dec ?mid (run_messages dec ?pre s))"
    by (rule run_messages_cursor_mono(1) [OF ctx1 mid])
  then show ?thesis by (simp only: run)
qed

text \<open>
  Claim C2. Let the handler run over messages none of which carries the interruption flag,
  from a state whose output context is open, and let every audio fragment decode (no stop
  and no interruption comes in between). The nodes scheduled earlier stay as they were and
  one node is scheduled for each fragment, in order. Each fragment starts at the value the
  cursor has when it is scheduled: the greater of the cursor before it (the end of the
  previous fragment, or the cursor of the starting state for the first one) and the current
  time of the audio context read for it. So it starts no earlier than that time, and it
  ends no earlier than it starts. Of any two fragments the earlier one ends before the
  later one starts. The cursor never decreases from one message to a later one, and at the
  end it is the end of the last fragment.
\<close>

theorem playback_never_overlaps:
  assumes ctx: "outputAudioContextRef s \<noteq> None"
    and unint: "list_all (\<lambda>m. \<not> is_interrupted m) ms"
    and dec: "list_all (decodable dec) (concat (map audio_fragments ms))"
  shows "take (length (sources s)) (sources (run_messages dec ms s)) = sources s
       \<and> length (sources (run_messages dec ms s)) =
           length (sources s) + length (concat (map audio_fragments ms))
       \<and> (\<forall>i < length (concat (map audio_fragments ms)).
            start_when (sources (run_messages dec ms s) ! (length (sources s) + i)) =
              max (if i = 0 then nextStartTimeRef s
                   else end_time (sources (run_messages dec ms s) ! (length (sources s) + i - 1)))
                  (fst (concat (map audio_fragments ms) ! i))
          \<and> fst (concat (map audio_fragments ms) ! i) \<le>
              start_when (sources (run_messages dec ms s) ! (length (sources s) + i))
          \<and> start_when (sources (run_messages dec ms s) ! (length (sources s) + i)) \<le>
              end_time (sources (run_messages dec ms s) ! (length (sources s) + i)))
       \<and> (\<forall>i j. i < j \<and> j < length (concat (map audio_fragments ms)) \<longrightarrow>
            end_time (sources (run_messages dec ms s) ! (length (sources s) + i)) \<le>
            start_when (sources (run_messages dec ms s) ! (length (sources s) + j)))
       \<and> (\<forall>k l. l \<le> k \<longrightarrow>
            nextStartTimeRef (run_messages dec (take l ms) s) \<le>
            nextStartTimeRef (run_messages dec (take k ms) s))
       \<and> nextStartTimeRef (run_messages dec ms s) =
           (if concat (map audio_fragments ms) = [] then nextStartTimeRef s
            else end_time (last (sources (run_messages dec ms s))))"
proof -
  define frags where "frags = concat (map audio_fragments ms)"
  define ds where "ds = map (decoded_duration dec) frags"
  define sch where "sch = schedule (nextStartTimeRef s) ds"
  define n where "n = length (sources s)"
  define s' where "s' = run_messages dec ms s"
  have nonneg: "list_all (\<lambda>f. 0 \<le> snd f) ds"
    unfolding ds_def by (rule decoded_duration_nonneg)
  from run_messages_schedule [OF ctx unint dec]
  have src: "sources s' = sources s @ sch"
    and cur: "nextStartTimeRef s' = cursor_after (nextStartTimeRef s) ds"
    unfolding s'_def sch_def ds_def frags_def by simp_all
  have len: "length sch = length frags" by (simp add: sch_def ds_def length_schedule)
  have nth: "sources s' ! (n + i) = sch ! i" for i
    by (simp add: src n_def)
  have start: "start_when (sch ! i) =
      max (if i = 0 then nextStartTimeRef s else end_time (sch ! (i - 1))) (fst (frags ! i))"
    if "i < length frags" for i
    using schedule_start [of i ds "nextStartTimeRef s"] that
    by (simp add: sch_def ds_def decoded_duration_def)
  have dur: "start_when (sch ! i) \<le> end_time (sch ! i)" if "i < length frags" for i
    using schedule_duration [OF nonneg, of i "nextStartTimeRef s"] that
    by (simp add: sch_def ds_def)
  have apart: "end_time (sch ! i) \<le> start_when (sch ! j)"
    if "i < j" and "j < length frags" for i j
    using schedule_no_overlap [OF nonneg that(1), of "nextStartTimeRef s"] that(2)
    by (simp add: sch_def ds_def)
  have prev: "n + i - 1 = n + (i - 1)" if "i \<noteq> 0" for i
    using that by simp
  have mono: "nextStartTimeRef (run_messages dec (take l ms) s) \<le>
      nextStartTimeRef (run_messages dec (take k ms) s)" if "l \<le> k" for k l
  proof -
    have "\<forall>m \<in> set ms. \<not> is_interrupted m \<and> list_all (decodable dec) (audio_fragments m)"
      using unint dec by (simp add: list_all_iff)
    from run_messages_prefix_mono [OF ctx this that] show ?thesis .
  qed
  have final: "nextStartTimeRef s' =
      (if frags = [] then nextStartTimeRef s
       else end_time (last (sources s')))"
  proof (cases "frags = []")
    case True
    with cur show ?thesis by (simp add: ds_def)
  next
    case False
    then have "sch \<noteq> []" "ds \<noteq> []" using len by (auto simp add: ds_def)
    with False cur show ?thesis
      using cursor_after_last [of "nextStartTimeRef s" ds] by (simp add: src sch_def)
  qed
  show ?thesis
    unfolding frags_def [symmetric] n_def [symmetric] s'_def [symmetric]
  proof (intro conjI allI impI)
    show "take n (sources s') = sources s" by (simp add: src n_def)
    show "length (sources s') = n + length frags"
      by (simp add: src len n_def)
    show "nextStartTimeRef s' =
      (if frags = [] then nextStartTimeRef s
       else end_time (last (sources s')))"
      by (rule final)
  next
    fix i
    assume i: "i < length frags"
    show "start_when (sources s' ! (n + i)) =
        max (if i = 0 then nextStartTimeRef s
             else end_time (sources s' ! (n + i - 1)))
            (fst (frags ! i))"
    proof (cases "i = 0")
      case True
      then show ?thesis using start [OF i] by (simp only: nth) simp
    next
      case False
      then show ?thesis using start [OF i] by (simp only: prev [OF False] nth)
    qed
    then show "fst (frags ! i) \<le> start_when (sources s' ! (n + i))"
      by simp
    show "start_when (sources s' ! (n + i)) \<le>
        end_time (sources s' ! (n + i))"
      using dur [OF i] by (simp only: nth)
  next
    fix i j
    assume "i < j \<and> j < length frags"
    then show "end_time (sources s' ! (n + i)) \<le>
        start_when (sources s' ! (n + j))"
      using apart [of i j] by (simp only: nth)
  next
    fix k l :: nat
    assume "l \<le> k"
    then show "nextStartTimeRef (run_messages dec (take l ms) s) \<le>
        nextStartTimeRef (run_messages dec (take k ms) s)"
      by (rule mono)
  qed
qed

lemma example_audio_fragments:
  "concat (map audio_fragments example_audio) =
     [(1 / 2, lit ''AA''), (1 / 2, lit ''A''), (5, lit ''AA'')]"
  by (simp add: example_audio_def audio_message_def audio_fragments_def part_audio_def lit_def)

lemma example_audio_sources:
  "sources (run_messages example_decoder example_audio example_active) =
     [\<lparr>start_when = 1 / 2, buffer_duration = 1, stopped = False\<rparr>,
      \<lparr>start_when = 3 / 2, buffer_duration = 1 / 2, stopped = False\<rparr>,
      \<lparr>start_when = 5, buffer_duration = 1, stopped = False\<rparr>]"
  by (simp add: example_audio_def example_active_eq onmessage_def audio_message_def
      on_turnComplete_def on_outputTranscription_def on_inputTranscription_def play_part_def
      on_interrupted_def example_decoder_def duration_def lit_def Let_def)

theorem playback_never_overlaps_witness:
  "outputAudioContextRef example_active \<noteq> None
   \<and> list_all (\<lambda>m. \<not> is_interrupted m) example_audio
   \<and> list_all (decodable example_decoder) (concat (map audio_fragments example_audio))
   \<and> sources (run_messages example_decoder example_audio example_active) =
       [\<lparr>start_when = 1 / 2, buffer_duration = 1, stopped = False\<rparr>,
        \<lparr>start_when = 3 / 2, buffer_duration = 1 / 2, stopped = False\<rparr>,
        \<lparr>start_when = 5, buffer_duration = 1, stopped = False\<rparr>]
   \<and> end_time (sources (run_messages example_decoder example_audio example_active) ! 0) \<le>
       start_when (sources (run_messages example_decoder example_audio example_active) ! 2)
   \<and> start_when (sources (run_messages example_decoder example_audio example_active) ! 1) =
       max (end_time (sources (run_messages example_decoder example_audio example_active) ! 0))
         (1 / 2)"
proof -
  have ctx: "outputAudioContextRef example_active \<noteq> None"
    and n: "length (sources example_active) = 0"
    by (simp_all add: example_active_eq)
  have unint: "list_all (\<lambda>m. \<not> is_interrupted m) example_audio"
    by (simp add: example_audio_def audio_message_def is_interrupted_def)
  have dec: "list_all (decodable example_decoder) (concat (map audio_fragments example_audio))"
    by (simp add: example_audio_fragments decodable_def example_decoder_def lit_def)
  note t = playback_never_overlaps [OF ctx unint dec, unfolded example_audio_fragments n]
  from t have "\<forall>i j. i < j \<and> j < length [(1 / 2 :: real, lit ''AA''), (1 / 2, lit ''A''), (5, lit ''AA'')] \<longrightarrow>
      end_time (sources (run_messages example_decoder example_audio example_active) ! (0 + i)) \<le>
      start_when (sources (run_messages example_decoder example_audio example_active) ! (0 + j))"
    by blast
  from this [rule_format, of 0 2]
  have a: "end_time (sources (run_messages example_decoder example_audio example_active) ! 0) \<le>
       start_when (sources (run_messages example_decoder example_audio example_active) ! 2)"
    by (simp add: numeral_2_eq_2)
  from t have "\<forall>i < length [(1 / 2 :: real, lit ''AA''), (1 / 2, lit ''A''), (5, lit ''AA'')].
      start_when (sources (run_messages example_decoder example_audio example_active) ! (0 + i)) =
        max (if i = 0 then nextStartTimeRef example_active
             else end_time (sources (run_messages example_decoder example_audio example_active) !
                    (0 + i - 1)))
            (fst ([(1 / 2 :: real, lit ''AA''), (1 / 2, lit ''A''), (5, lit ''AA'')] ! i))
      \<and> fst ([(1 / 2 :: real, lit ''AA''), (1 / 2, lit ''A''), (5, lit ''AA'')] ! i) \<le>
          start_when (sources (run_messages example_decoder example_audio example_active) ! (0 + i))
      \<and> start_when (sources (run_messages example_decoder example_audio example_active) ! (0 + i)) \<le>
          end_time (sources (run_messages example_decoder example_audio example_active) ! (0 + i))"
    by blast
  from this [rule_format, of 1]
  have b: "start_when (sources (run_messages example_decoder example_audio example_active) ! 1) =
       max (end_time (sources (run_messages example_decoder example_audio example_active) ! 0))
         (1 / 2)"
    by simp
  from ctx unint dec example_audio_sources a b show ?thesis by blast
qed

section \<open>Interruption\<close>

text \<open>The loop over the parts only adds nodes, and tracks each node it adds.\<close>

lemma extends_playback_refl: "extends_playback s s"
  by (simp add: extends_playback_def)

lemma extends_playback_trans:
  assumes "extends_playback s t" and "extends_playback t u"
  shows "extends_playback s u"
proof -
  from assms have st: "take (length (sources s)) (sources t) = sources s"
    and tu: "take (length (sources t)) (sources u) = sources t"
    and le: "length (sources s) \<le> length (sources t)" "length (sources t) \<le> length (sources u)"
    and tr: "audioPlaybackSources t =
        audioPlaybackSources s \<union> {length (sources s)..<length (sources t)}"
      "audioPlaybackSources u =
        audioPlaybackSources t \<union> {length (sources t)..<length (sources u)}"
    by (simp_all add: extends_playback_def)
  have "take (length (sources s)) (sources u) =
      take (length (sources s)) (take (length (sources t)) (sources u))"
    using le by (simp add: min_def)
  then have a: "take (length (sources s)) (sources u) = sources s"
    using st tu by simp
  have "{length (sources s)..<length (sources t)} \<union> {length (sources t)..<length (sources u)} =
      {length (sources s)..<length (sources u)}"
    using le by (rule ivl_disj_un_two(3))
  then have b: "audioPlaybackSources u =
      audioPlaybackSources s \<union> {length (sources s)..<length (sources u)}"
    using tr by (simp add: Un_assoc)
  from a b le show ?thesis by (simp add: extends_playback_def)
qed

lemma play_part_extends: "extends_playback s (snd (play_part dec tp s))"
  by (auto simp add: play_part_def extends_playback_def Let_def split: option.splits)

lemma play_parts_extends: "extends_playback s (snd (play_parts dec tps s))"
proof (induction tps arbitrary: s)
  case Nil
  show ?case by (simp add: extends_playback_refl)
next
  case (Cons tp tps)
  obtain out s' where p: "play_part dec tp s = (out, s')" by (cases "play_part dec tp s")
  have a: "extends_playback s s'" using play_part_extends [of s dec tp] p by simp
  show ?case
  proof (cases out)
    case Returned
    with p have "snd (play_parts dec (tp # tps) s) = snd (play_parts dec tps s')" by simp
    with extends_playback_trans [OF a Cons.IH [of s']] show ?thesis by simp
  next
    case Rejected
    with p a show ?thesis by simp
  qed
qed

lemma extends_playback_nth:
  "extends_playback s s' \<Longrightarrow> i < length (sources s) \<Longrightarrow> sources s' ! i = sources s ! i"
proof -
  assume e: "extends_playback s s'" and i: "i < length (sources s)"
  then have "take (length (sources s)) (sources s') ! i = sources s' ! i" by simp
  with e show ?thesis by (simp add: extends_playback_def)
qed

lemma start_when_stop_sources:
  "i < length ns \<Longrightarrow> start_when (stop_sources S ns ! i) = start_when (ns ! i)"
  by (simp add: nth_stop_sources)

lemma playback_of_fields:
  "playback_of s' = playback_of s \<Longrightarrow>
   sources s' = sources s \<and> audioPlaybackSources s' = audioPlaybackSources s \<and>
   nextStartTimeRef s' = nextStartTimeRef s"
  by (simp add: playback_of_def)

text \<open>What a handler that returns has done when the message carries the interruption flag.\<close>

lemma onmessage_interrupted:
  assumes int: "interrupted sc" and ret: "fst (onmessage dec (Some sc) s) = Returned"
  shows "\<exists>s2. extends_playback s s2 \<and> session_of s2 = session_of s \<and>
           snd (onmessage dec (Some sc) s) =
             s2\<lparr>sources := stop_sources (audioPlaybackSources s2) (sources s2),
                audioPlaybackSources := {}, nextStartTimeRef := 0\<rparr>"
proof -
  let ?s1 = "transcript_step sc s"
  have pb: "sources ?s1 = sources s" "audioPlaybackSources ?s1 = audioPlaybackSources s"
    using playback_of_fields [OF transcript_step_playback, of sc s] by simp_all
  have e1: "extends_playback s ?s1" by (simp add: extends_playback_def pb)
  show ?thesis
  proof (cases "modelTurn_parts sc")
    case None
    then have "snd (onmessage dec (Some sc) s) =
        ?s1\<lparr>sources := stop_sources (audioPlaybackSources ?s1) (sources ?s1),
           audioPlaybackSources := {}, nextStartTimeRef := 0\<rparr>"
      using int by (simp add: onmessage_def Let_def transcript_step_def [symmetric] on_interrupted_def)
    with e1 transcript_step_session [of sc s] show ?thesis by blast
  next
    case (Some parts)
    obtain out s2 where p: "play_parts dec parts ?s1 = (out, s2)"
      by (cases "play_parts dec parts ?s1")
    from ret Some p have out: "out = Returned"
      by (cases out) (simp_all add: onmessage_def Let_def transcript_step_def [symmetric])
    have e2: "extends_playback ?s1 s2" using play_parts_extends [of ?s1 dec parts] p by simp
    have ss: "session_of s2 = session_of s"
      using play_parts_session [of dec parts ?s1] p by (simp add: transcript_step_session)
    have "snd (onmessage dec (Some sc) s) =
        s2\<lparr>sources := stop_sources (audioPlaybackSources s2) (sources s2),
           audioPlaybackSources := {}, nextStartTimeRef := 0\<rparr>"
      using int Some p out
      by (simp add: onmessage_def Let_def transcript_step_def [symmetric] on_interrupted_def)
    with extends_playback_trans [OF e1 e2] ss show ?thesis by blast
  qed
qed

text \<open>The first audio part of a message is scheduled at the cursor or at the current time.\<close>

lemma onmessage_first_part:
  assumes ctx: "outputAudioContextRef s \<noteq> None"
    and parts: "modelTurn_parts sc = Some ((now, p) # rest)"
    and data: "inlineData_data p = Some b" "b \<noteq> []" "dec b = Some audioBuffer"
  shows "length (sources s) < length (sources (snd (onmessage dec (Some sc) s))) \<and>
         start_when (sources (snd (onmessage dec (Some sc) s)) ! length (sources s)) =
           max (nextStartTimeRef s) now"
proof -
  let ?s1 = "transcript_step sc s"
  let ?n = "length (sources s)"
  have pb: "sources ?s1 = sources s" "nextStartTimeRef ?s1 = nextStartTimeRef s"
    using playback_of_fields [OF transcript_step_playback, of sc s] by simp_all
  have ctx1: "outputAudioContextRef ?s1 \<noteq> None"
    using session_of_output [OF transcript_step_session, of sc s] ctx by simp
  obtain s2 where p1: "play_part dec (now, p) ?s1 = (Returned, s2)"
    and src2: "sources s2 = sources s @
        [\<lparr>start_when = max (nextStartTimeRef s) now, buffer_duration = duration audioBuffer,
          stopped = False\<rparr>]"
    using ctx1 data pb by (auto simp add: play_part_def Let_def)
  obtain out s3 where p2: "play_parts dec rest s2 = (out, s3)"
    by (cases "play_parts dec rest s2")
  have e: "extends_playback s2 s3" using play_parts_extends [of s2 dec rest] p2 by simp
  have n2: "?n < length (sources s2)" by (simp add: src2)
  from extends_playback_nth [OF e n2]
  have nth3: "start_when (sources s3 ! ?n) = max (nextStartTimeRef s) now"
    by (simp add: src2)
  from e n2 have len3: "?n < length (sources s3)" by (simp add: extends_playback_def)
  have res: "snd (onmessage dec (Some sc) s) = s3 \<or>
      snd (onmessage dec (Some sc) s) = on_interrupted sc s3"
    using parts p1 p2
    by (cases out) (simp_all add: onmessage_def Let_def transcript_step_def [symmetric])
  have "length (sources (on_interrupted sc s3)) = length (sources s3)"
    "start_when (sources (on_interrupted sc s3) ! ?n) = start_when (sources s3 ! ?n)"
    using len3 by (simp_all add: on_interrupted_def length_stop_sources start_when_stop_sources)
  with res nth3 len3 show ?thesis by auto
qed

text \<open>
  Claim C3, amended. In a reachable state, let a message carry the interruption flag and
  let its handler reach the interruption block (no exception has escaped the loop over its
  audio parts). Afterwards every node that was tracked when the message arrived, and every
  node the message itself scheduled, has been stopped; the tracked set is empty and the
  cursor is zero. The first audio fragment of the message handled next is then started at
  the current time of the audio context (a time is never negative), not at the cursor
  there was before the interruption. (The fragments after the first one are queued behind
  it, as always.)
\<close>

theorem interruption_flushes_playback:
  assumes reach: "reachable s"
    and int: "interrupted sc"
    and ret: "fst (onmessage dec (Some sc) s) = Returned"
  shows "audioPlaybackSources (snd (onmessage dec (Some sc) s)) = {}
       \<and> nextStartTimeRef (snd (onmessage dec (Some sc) s)) = 0
       \<and> (\<forall>i \<in> audioPlaybackSources s.
            i < length (sources (snd (onmessage dec (Some sc) s))) \<and>
            stopped (sources (snd (onmessage dec (Some sc) s)) ! i))
       \<and> (\<forall>i. length (sources s) \<le> i \<and> i < length (sources (snd (onmessage dec (Some sc) s))) \<longrightarrow>
            stopped (sources (snd (onmessage dec (Some sc) s)) ! i))
       \<and> (\<forall>sc' now p rest b audioBuffer.
            outputAudioContextRef s \<noteq> None \<and> 0 \<le> now \<and>
            modelTurn_parts sc' = Some ((now, p) # rest) \<and>
            inlineData_data p = Some b \<and> b \<noteq> [] \<and> dec b = Some audioBuffer \<longrightarrow>
            length (sources (snd (onmessage dec (Some sc) s))) <
              length (sources (snd (onmessage dec (Some sc') (snd (onmessage dec (Some sc) s))))) \<and>
            start_when (sources (snd (onmessage dec (Some sc') (snd (onmessage dec (Some sc) s)))) !
                length (sources (snd (onmessage dec (Some sc) s)))) = now)"
proof -
  define s1 where "s1 = snd (onmessage dec (Some sc) s)"
  from onmessage_interrupted [OF int ret] obtain s2
    where e: "extends_playback s s2" and ss: "session_of s2 = session_of s"
      and s1: "s1 = s2\<lparr>sources := stop_sources (audioPlaybackSources s2) (sources s2),
                audioPlaybackSources := {}, nextStartTimeRef := 0\<rparr>"
    unfolding s1_def by blast
  from reach have tr: "tracked_ok s" by (rule reachable_tracked_ok)
  from e have le: "length (sources s) \<le> length (sources s2)"
    and tracked: "audioPlaybackSources s2 =
      audioPlaybackSources s \<union> {length (sources s)..<length (sources s2)}"
    by (simp_all add: extends_playback_def)
  have len1: "length (sources s1) = length (sources s2)"
    by (simp add: s1 length_stop_sources)
  have stop: "stopped (sources s1 ! i)" if "i \<in> audioPlaybackSources s2" "i < length (sources s2)"
    for i using that by (simp add: s1 nth_stop_sources)
  have a: "audioPlaybackSources s1 = {}" and b: "nextStartTimeRef s1 = 0"
    by (simp_all add: s1)
  have c: "\<forall>i \<in> audioPlaybackSources s. i < length (sources s1) \<and> stopped (sources s1 ! i)"
  proof
    fix i
    assume i: "i \<in> audioPlaybackSources s"
    with tr have "i < length (sources s)" by (simp add: tracked_ok_def)
    with le have "i < length (sources s2)" by simp
    moreover from i tracked have "i \<in> audioPlaybackSources s2" by simp
    ultimately show "i < length (sources s1) \<and> stopped (sources s1 ! i)"
      using stop [of i] len1 by simp
  qed
  have d: "\<forall>i. length (sources s) \<le> i \<and> i < length (sources s1) \<longrightarrow> stopped (sources s1 ! i)"
  proof (intro allI impI)
    fix i
    assume i: "length (sources s) \<le> i \<and> i < length (sources s1)"
    with len1 tracked have "i \<in> audioPlaybackSources s2" by simp
    with i len1 show "stopped (sources s1 ! i)" using stop [of i] by simp
  qed
  have ctx1: "outputAudioContextRef s1 = outputAudioContextRef s"
    using session_of_output [OF ss] by (simp add: s1)
  have f: "\<forall>sc' now p rest b audioBuffer.
            outputAudioContextRef s \<noteq> None \<and> 0 \<le> now \<and>
            modelTurn_parts sc' = Some ((now, p) # rest) \<and>
            inlineData_data p = Some b \<and> b \<noteq> [] \<and> dec b = Some audioBuffer \<longrightarrow>
            length (sources s1) < length (sources (snd (onmessage dec (Some sc') s1))) \<and>
            start_when (sources (snd (onmessage dec (Some sc') s1)) ! length (sources s1)) = now"
  proof (intro allI impI)
    fix sc' :: server_content and now p rest b audioBuffer
    assume h: "outputAudioContextRef s \<noteq> None \<and> 0 \<le> now \<and>
            modelTurn_parts sc' = Some ((now, p) # rest) \<and>
            inlineData_data p = Some b \<and> b \<noteq> [] \<and> dec b = Some audioBuffer"
    then have ctx: "outputAudioContextRef s1 \<noteq> None" using ctx1 by simp
    from h have parts: "modelTurn_parts sc' = Some ((now, p) # rest)"
      and data: "inlineData_data p = Some b" "b \<noteq> []" "dec b = Some audioBuffer"
      and now: "0 \<le> now" by simp_all
    from onmessage_first_part [where dec = dec, OF ctx parts data] b now
    show "length (sources s1) < length (sources (snd (onmessage dec (Some sc') s1))) \<and>
          start_when (sources (snd (onmessage dec (Some sc') s1)) ! length (sources s1)) = now"
      by simp
  qed
  from a b c d f show ?thesis unfolding s1_def by blast
qed

lemma reachable_run_messages: "reachable s \<Longrightarrow> reachable (run_messages dec ms s)"
  by (induction ms arbitrary: s) (simp_all add: r_message)

lemma example_three_eq:
  "example_three =
    \<lparr> isApiKeyModalOpen = False, messages = [], isSessionActive = True,
      statusMessage = ''Connected! Start speaking when you are ready.'', isApiKeySet = True,
      apiKeyInput = [], currentUserTranscriptionRef = [],
      currentTutorTranscriptionRef = [], displayUserTranscription = [],
      displayTutorTranscription = [], aiRef = Some (GoogleGenAI (lit ''key'')),
      sessionPromiseRef = Some (LiveSessionPromise 2),
      streamRef = Some MediaStream, inputAudioContextRef = Some (AudioContext 0 16000 Running),
      outputAudioContextRef = Some (AudioContext 1 24000 Running),
      scriptProcessorRef = Some ScriptProcessorNode,
      mediaStreamSourceRef = Some MediaStreamAudioSourceNode, nextStartTimeRef = 6,
      audioPlaybackSources = {0, 1, 2}, googleApiKey = Some (lit ''key''),
      sources = [\<lparr>start_when = 1 / 2, buffer_duration = 1, stopped = False\<rparr>,
                 \<lparr>start_when = 3 / 2, buffer_duration = 1 / 2, stopped = False\<rparr>,
                 \<lparr>start_when = 5, buffer_duration = 1, stopped = False\<rparr>],
      calls = [NewAudioContext 0 16000, NewAudioContext 1 24000, ConnectLive 2, GetUserMedia],
      thenCallbacks = [] \<rparr>"
  by (simp add: example_three_def example_audio_def example_active_eq onmessage_def
      audio_message_def on_turnComplete_def on_outputTranscription_def
      on_inputTranscription_def play_part_def on_interrupted_def example_decoder_def
      duration_def lit_def Let_def insert_commute numeral_2_eq_2)

lemma example_interrupted_eq:
  "onmessage example_decoder interruption_message example_three =
    (Returned, example_three\<lparr>sources :=
        [\<lparr>start_when = 1 / 2, buffer_duration = 1, stopped = True\<rparr>,
         \<lparr>start_when = 3 / 2, buffer_duration = 1 / 2, stopped = True\<rparr>,
         \<lparr>start_when = 5, buffer_duration = 1, stopped = True\<rparr>],
      audioPlaybackSources := {}, nextStartTimeRef := 0\<rparr>)"
  by (simp add: example_three_eq onmessage_def interruption_message_def on_turnComplete_def
      on_outputTranscription_def on_inputTranscription_def on_interrupted_def
      stop_sources_def Let_def)

theorem interruption_flushes_playback_witness:
  "reachable example_three
   \<and> audioPlaybackSources example_three = {0, 1, 2}
   \<and> nextStartTimeRef example_three = 6
   \<and> fst (onmessage example_decoder interruption_message example_three) = Returned
   \<and> audioPlaybackSources (snd (onmessage example_decoder interruption_message example_three)) = {}
   \<and> nextStartTimeRef (snd (onmessage example_decoder interruption_message example_three)) = 0
   \<and> stopped (sources (snd (onmessage example_decoder interruption_message example_three)) ! 0)
   \<and> stopped (sources (snd (onmessage example_decoder interruption_message example_three)) ! 1)
   \<and> stopped (sources (snd (onmessage example_decoder interruption_message example_three)) ! 2)
   \<and> start_when (sources (snd (onmessage example_decoder
         (audio_message [(7, \<lparr>inlineData_data = Some (lit ''AA'')\<rparr>)])
         (snd (onmessage example_decoder interruption_message example_three)))) ! 3) = 7"
proof -
  let ?sc = "\<lparr>inputTranscription = None, outputTranscription = None, turnComplete = False,
           modelTurn_parts = None, interrupted = True\<rparr>"
  let ?sc' = "\<lparr>inputTranscription = None, outputTranscription = None, turnComplete = False,
           modelTurn_parts = Some [(7 :: real, \<lparr>inlineData_data = Some (lit ''AA'')\<rparr>)],
           interrupted = False\<rparr>"
  let ?s1 = "snd (onmessage example_decoder interruption_message example_three)"
  have m: "Some ?sc = interruption_message"
    "Some ?sc' = audio_message [(7, \<lparr>inlineData_data = Some (lit ''AA'')\<rparr>)]"
    by (simp_all add: interruption_message_def audio_message_def)
  have r: "reachable example_three"
    unfolding example_three_def by (intro reachable_run_messages reachable_examples)
  have i: "interrupted ?sc" by simp
  have ret: "fst (onmessage example_decoder (Some ?sc) example_three) = Returned"
    unfolding m by (simp add: example_interrupted_eq)
  have tr: "audioPlaybackSources example_three = {0, 1, 2}"
    and cur: "nextStartTimeRef example_three = 6"
    and ctx: "outputAudioContextRef example_three \<noteq> None"
    by (simp_all add: example_three_eq)
  have len: "length (sources ?s1) = 3"
    by (simp add: example_interrupted_eq)
  note t = interruption_flushes_playback [OF r i ret, unfolded m]
  from t have a: "audioPlaybackSources ?s1 = {}" "nextStartTimeRef ?s1 = 0"
    and b: "\<forall>i \<in> audioPlaybackSources example_three.
        i < length (sources ?s1) \<and> stopped (sources ?s1 ! i)"
    by blast+
  from b have c: "stopped (sources ?s1 ! 0)" "stopped (sources ?s1 ! 1)"
    "stopped (sources ?s1 ! 2)"
    unfolding tr by simp_all
  from t have "\<forall>sc' now p rest b audioBuffer.
      outputAudioContextRef example_three \<noteq> None \<and> 0 \<le> now \<and>
      modelTurn_parts sc' = Some ((now, p) # rest) \<and>
      inlineData_data p = Some b \<and> b \<noteq> [] \<and> example_decoder b = Some audioBuffer \<longrightarrow>
      length (sources ?s1) < length (sources (snd (onmessage example_decoder (Some sc') ?s1))) \<and>
      start_when (sources (snd (onmessage example_decoder (Some sc') ?s1)) !
          length (sources ?s1)) = now"
    by blast
  from this [rule_format, of 7 ?sc' "\<lparr>inlineData_data = Some (lit ''AA'')\<rparr>" "[]" "lit ''AA''"
      "\<lparr>buf_length = 24000, buf_sampleRate = 24000\<rparr>"] ctx
  have d: "start_when (sources (snd (onmessage example_decoder
         (audio_message [(7, \<lparr>inlineData_data = Some (lit ''AA'')\<rparr>)]) ?s1)) ! 3) = 7"
    unfolding m len by (simp add: example_decoder_def lit_def)
  from r tr cur ret [unfolded m] a c d show ?thesis by blast
qed

section \<open>A fragment that does not decode\<close>

lemma play_parts_append:
  "play_parts dec (xs @ ys) s =
     (case play_parts dec xs s of
        (Rejected, s') \<Rightarrow> (Rejected, s')
      | (Returned, s') \<Rightarrow> play_parts dec ys s')"
proof (induction xs arbitrary: s)
  case Nil
  show ?case by simp
next
  case (Cons x xs)
  obtain out s' where p: "play_part dec x s = (out, s')" by (cases "play_part dec x s")
  with Cons.IH [of s'] show ?case by (cases out) simp_all
qed

lemma transcript_step_truncated:
  "transcript_step (sc\<lparr>modelTurn_parts := ps, interrupted := i\<rparr>) s = transcript_step sc s"
  by (simp add: transcript_step_def on_turnComplete_def on_outputTranscription_def
      on_inputTranscription_def)

lemma session_of_fields:
  "session_of s' = session_of s \<Longrightarrow>
   isSessionActive s' = isSessionActive s \<and> sessionPromiseRef s' = sessionPromiseRef s \<and>
   streamRef s' = streamRef s \<and> scriptProcessorRef s' = scriptProcessorRef s \<and>
   mediaStreamSourceRef s' = mediaStreamSourceRef s \<and>
   inputAudioContextRef s' = inputAudioContextRef s \<and>
   outputAudioContextRef s' = outputAudioContextRef s \<and> calls s' = calls s \<and>
   statusMessage s' = statusMessage s"
  by (simp add: session_of_def)

lemma onmessage_decode_failure:
  assumes ctx: "outputAudioContextRef s \<noteq> None"
    and parts: "modelTurn_parts sc = Some (pre @ (now, p) # post)"
    and pre: "list_all (decodable dec) (concat (map part_audio pre))"
    and bad: "inlineData_data p = Some b" "b \<noteq> []" "dec b = None"
  shows "\<exists>s2. onmessage dec (Some (sc\<lparr>modelTurn_parts := Some pre, interrupted := False\<rparr>)) s =
                 (Returned, s2) \<and>
              onmessage dec (Some sc) s =
                 (Rejected, s2\<lparr>nextStartTimeRef := max (nextStartTimeRef s2) now\<rparr>)"
proof -
  let ?s1 = "transcript_step sc s"
  have ctx1: "outputAudioContextRef ?s1 \<noteq> None"
    using session_of_output [OF transcript_step_session, of sc s] ctx by simp
  obtain out s2 where p: "play_parts dec pre ?s1 = (out, s2)"
    by (cases "play_parts dec pre ?s1")
  from play_parts_schedule [OF ctx1 pre] p have out: "out = Returned" by simp
  have ctx2: "outputAudioContextRef s2 \<noteq> None"
    using session_of_output [OF play_parts_session, of dec pre ?s1] p ctx1 by simp
  have fail: "play_part dec (now, p) s2 =
      (Rejected, s2\<lparr>nextStartTimeRef := max (nextStartTimeRef s2) now\<rparr>)"
    using ctx2 bad by (auto simp add: play_part_def Let_def)
  have a: "onmessage dec (Some (sc\<lparr>modelTurn_parts := Some pre, interrupted := False\<rparr>)) s =
      (Returned, s2)"
    using p out
    by (simp add: onmessage_def Let_def transcript_step_def [symmetric]
        transcript_step_truncated on_interrupted_def)
  have b: "onmessage dec (Some sc) s =
      (Rejected, s2\<lparr>nextStartTimeRef := max (nextStartTimeRef s2) now\<rparr>)"
    using parts p out fail
    by (simp add: onmessage_def Let_def transcript_step_def [symmetric] play_parts_append)
  from a b show ?thesis by blast
qed

text \<open>
  Claim C5, amended. Let the output context be open, let an audio part of a message fail
  to decode, and let the audio parts before it in that message decode. The handler throws
  at that part: its promise rejects, and the state is the one the message would have left
  had it ended before the failed part and carried no interruption flag, except that the
  cursor has been raised to the current time of the audio context if that is later. So
  the transcript events of the message and its earlier parts have been processed, the
  later parts and the interruption flag of the same message have not, and the failed part
  adds no node and tracks none. The session is not stopped: the active flag, the session
  ref, the stream, the capture nodes, both audio contexts and the calls made are
  unchanged. Messages handled afterwards are processed as usual: a transcript fragment is
  appended to its accumulator, and a first audio part that decodes is scheduled at the
  greater of the cursor and the current time.
\<close>

theorem decode_failure_rejects_message:
  assumes ctx: "outputAudioContextRef s \<noteq> None"
    and parts: "modelTurn_parts sc = Some (pre @ (now, p) # post)"
    and pre: "list_all (decodable dec) (concat (map part_audio pre))"
    and bad: "inlineData_data p = Some b" "b \<noteq> []" "dec b = None"
  shows "fst (onmessage dec (Some sc) s) = Rejected
       \<and> fst (onmessage dec (Some (sc\<lparr>modelTurn_parts := Some pre, interrupted := False\<rparr>)) s) =
           Returned
       \<and> snd (onmessage dec (Some sc) s) =
           (snd (onmessage dec (Some (sc\<lparr>modelTurn_parts := Some pre, interrupted := False\<rparr>)) s))
             \<lparr>nextStartTimeRef :=
                max (nextStartTimeRef (snd (onmessage dec
                       (Some (sc\<lparr>modelTurn_parts := Some pre, interrupted := False\<rparr>)) s))) now\<rparr>
       \<and> isSessionActive (snd (onmessage dec (Some sc) s)) = isSessionActive s
       \<and> sessionPromiseRef (snd (onmessage dec (Some sc) s)) = sessionPromiseRef s
       \<and> streamRef (snd (onmessage dec (Some sc) s)) = streamRef s
       \<and> scriptProcessorRef (snd (onmessage dec (Some sc) s)) = scriptProcessorRef s
       \<and> mediaStreamSourceRef (snd (onmessage dec (Some sc) s)) = mediaStreamSourceRef s
       \<and> inputAudioContextRef (snd (onmessage dec (Some sc) s)) = inputAudioContextRef s
       \<and> outputAudioContextRef (snd (onmessage dec (Some sc) s)) = outputAudioContextRef s
       \<and> calls (snd (onmessage dec (Some sc) s)) = calls s
       \<and> (\<forall>m. \<not> is_turnComplete m \<longrightarrow>
            currentUserTranscriptionRef (snd (onmessage dec m (snd (onmessage dec (Some sc) s)))) =
              currentUserTranscriptionRef (snd (onmessage dec (Some sc) s)) @ user_text m \<and>
            currentTutorTranscriptionRef (snd (onmessage dec m (snd (onmessage dec (Some sc) s)))) =
              currentTutorTranscriptionRef (snd (onmessage dec (Some sc) s)) @ tutor_text m)
       \<and> (\<forall>sc' now' p' rest b' audioBuffer.
            modelTurn_parts sc' = Some ((now', p') # rest) \<and>
            inlineData_data p' = Some b' \<and> b' \<noteq> [] \<and> dec b' = Some audioBuffer \<longrightarrow>
            length (sources (snd (onmessage dec (Some sc) s))) <
              length (sources (snd (onmessage dec (Some sc') (snd (onmessage dec (Some sc) s))))) \<and>
            start_when (sources (snd (onmessage dec (Some sc') (snd (onmessage dec (Some sc) s)))) !
                length (sources (snd (onmessage dec (Some sc) s)))) =
              max (nextStartTimeRef (snd (onmessage dec (Some sc) s))) now')"
proof -
  define s' where "s' = snd (onmessage dec (Some sc) s)"
  from onmessage_decode_failure [OF ctx parts pre bad] obtain s2
    where a: "onmessage dec (Some (sc\<lparr>modelTurn_parts := Some pre, interrupted := False\<rparr>)) s =
        (Returned, s2)"
      and b: "onmessage dec (Some sc) s =
        (Rejected, s2\<lparr>nextStartTimeRef := max (nextStartTimeRef s2) now\<rparr>)"
    by blast
  have ss: "session_of s' = session_of s" unfolding s'_def by (rule onmessage_session)
  note f = session_of_fields [OF ss]
  have ctx': "outputAudioContextRef s' \<noteq> None" using f ctx by simp
  have t: "\<forall>m. \<not> is_turnComplete m \<longrightarrow>
      currentUserTranscriptionRef (snd (onmessage dec m s')) =
        currentUserTranscriptionRef s' @ user_text m \<and>
      currentTutorTranscriptionRef (snd (onmessage dec m s')) =
        currentTutorTranscriptionRef s' @ tutor_text m"
  proof (intro allI impI)
    fix m :: live_server_message
    assume "\<not> is_turnComplete m"
    from onmessage_fragment [OF this, of dec s']
    show "currentUserTranscriptionRef (snd (onmessage dec m s')) =
        currentUserTranscriptionRef s' @ user_text m \<and>
      currentTutorTranscriptionRef (snd (onmessage dec m s')) =
        currentTutorTranscriptionRef s' @ tutor_text m"
      by (simp add: transcript_of_def)
  qed
  have n: "\<forall>sc' now' p' rest b' audioBuffer.
      modelTurn_parts sc' = Some ((now', p') # rest) \<and>
      inlineData_data p' = Some b' \<and> b' \<noteq> [] \<and> dec b' = Some audioBuffer \<longrightarrow>
      length (sources s') < length (sources (snd (onmessage dec (Some sc') s'))) \<and>
      start_when (sources (snd (onmessage dec (Some sc') s')) ! length (sources s')) =
        max (nextStartTimeRef s') now'"
  proof (intro allI impI)
    fix sc' :: server_content and now' p' rest b' audioBuffer
    assume h: "modelTurn_parts sc' = Some ((now', p') # rest) \<and>
      inlineData_data p' = Some b' \<and> b' \<noteq> [] \<and> dec b' = Some audioBuffer"
    then have parts': "modelTurn_parts sc' = Some ((now', p') # rest)"
      and data: "inlineData_data p' = Some b'" "b' \<noteq> []" "dec b' = Some audioBuffer"
      by simp_all
    from onmessage_first_part [where dec = dec, OF ctx' parts' data]
    show "length (sources s') < length (sources (snd (onmessage dec (Some sc') s'))) \<and>
      start_when (sources (snd (onmessage dec (Some sc') s')) ! length (sources s')) =
        max (nextStartTimeRef s') now'" .
  qed
  have r: "fst (onmessage dec (Some sc) s) = Rejected"
    "fst (onmessage dec (Some (sc\<lparr>modelTurn_parts := Some pre, interrupted := False\<rparr>)) s) =
        Returned"
    "s' = (snd (onmessage dec (Some (sc\<lparr>modelTurn_parts := Some pre, interrupted := False\<rparr>)) s))
             \<lparr>nextStartTimeRef :=
                max (nextStartTimeRef (snd (onmessage dec
                       (Some (sc\<lparr>modelTurn_parts := Some pre, interrupted := False\<rparr>)) s))) now\<rparr>"
    unfolding s'_def by (simp_all add: a b)
  from r f t n show ?thesis unfolding s'_def by blast
qed

lemma example_bad_message_eq:
  "onmessage example_decoder example_bad_message example_active =
     (Rejected, example_active\<lparr>nextStartTimeRef := 1 / 2\<rparr>)"
  by (simp add: example_bad_message_def example_active_eq onmessage_def audio_message_def
      on_turnComplete_def on_outputTranscription_def on_inputTranscription_def play_part_def
      example_decoder_def lit_def Let_def)

theorem decode_failure_rejects_message_witness:
  "outputAudioContextRef example_active \<noteq> None
   \<and> example_decoder (lit ''bad'') = None
   \<and> fst (onmessage example_decoder example_bad_message example_active) = Rejected
   \<and> snd (onmessage example_decoder example_bad_message example_active) =
       example_active\<lparr>nextStartTimeRef := 1 / 2\<rparr>
   \<and> isSessionActive (snd (onmessage example_decoder example_bad_message example_active))
   \<and> sessionPromiseRef (snd (onmessage example_decoder example_bad_message example_active)) =
       Some (LiveSessionPromise 2)"
proof -
  let ?sc = "\<lparr>inputTranscription = None, outputTranscription = None, turnComplete = False,
      modelTurn_parts = Some ([] @ (1 / 2 :: real, \<lparr>inlineData_data = Some (lit ''bad'')\<rparr>) #
        [(1 / 2, \<lparr>inlineData_data = Some (lit ''AA'')\<rparr>)]),
      interrupted = False\<rparr>"
  have m: "Some ?sc = example_bad_message"
    by (simp add: example_bad_message_def audio_message_def)
  have ctx: "outputAudioContextRef example_active \<noteq> None"
    and act: "isSessionActive example_active"
      "sessionPromiseRef example_active = Some (LiveSessionPromise 2)"
    by (simp_all add: example_active_eq)
  have parts: "modelTurn_parts ?sc =
      Some ([] @ (1 / 2, \<lparr>inlineData_data = Some (lit ''bad'')\<rparr>) #
        [(1 / 2, \<lparr>inlineData_data = Some (lit ''AA'')\<rparr>)])"
    by simp
  have pre: "list_all (decodable example_decoder) (concat (map part_audio []))" by simp
  have bad: "inlineData_data \<lparr>inlineData_data = Some (lit ''bad'')\<rparr> = Some (lit ''bad'')"
    "lit ''bad'' \<noteq> []" "example_decoder (lit ''bad'') = None"
    by (simp_all add: example_decoder_def lit_def)
  note t = decode_failure_rejects_message [OF ctx parts pre bad, unfolded m]
  from t have "fst (onmessage example_decoder example_bad_message example_active) = Rejected"
    and "isSessionActive (snd (onmessage example_decoder example_bad_message example_active)) =
      isSessionActive example_active"
    and "sessionPromiseRef (snd (onmessage example_decoder example_bad_message example_active)) =
      sessionPromiseRef example_active"
    by blast+
  with ctx bad(3) act example_bad_message_eq show ?thesis by simp
qed

text \<open>
  Where the claim C5 fails as it was stated: a fragment that does not decode raises the
  cursor, and the fragment after it in the same message, which does decode, is never
  scheduled.
\<close>

theorem decode_failure_counterexample:
  "example_decoder (lit ''bad'') = None
   \<and> example_decoder (lit ''AA'') \<noteq> None
   \<and> nextStartTimeRef example_active = 0
   \<and> nextStartTimeRef (snd (onmessage example_decoder example_bad_message example_active)) = 1 / 2
   \<and> sources (snd (onmessage example_decoder example_bad_message example_active)) = []
   \<and> sources (snd (onmessage example_decoder
        (audio_message [(1 / 2, \<lparr>inlineData_data = Some (lit ''AA'')\<rparr>)]) example_active)) =
       [\<lparr>start_when = 1 / 2, buffer_duration = 1, stopped = False\<rparr>]"
proof -
  have "example_decoder (lit ''bad'') = None" "example_decoder (lit ''AA'') \<noteq> None"
    by (simp_all add: example_decoder_def lit_def)
  moreover have "nextStartTimeRef example_active = 0" by (simp add: example_active_eq)
  moreover have
    "nextStartTimeRef (snd (onmessage example_decoder example_bad_message example_active)) = 1 / 2"
    "sources (snd (onmessage example_decoder example_bad_message example_active)) = []"
    by (simp_all add: example_bad_message_eq) (simp add: example_active_eq)
  moreover have "sources (snd (onmessage example_decoder
        (audio_message [(1 / 2, \<lparr>inlineData_data = Some (lit ''AA'')\<rparr>)]) example_active)) =
       [\<lparr>start_when = 1 / 2, buffer_duration = 1, stopped = False\<rparr>]"
    using example_playing_eq by (simp add: example_playing_def)
  ultimately show ?thesis by blast
qed

text \<open>
  Where the claim C3 fails as it was stated: an interruption flag that comes with an audio
  part that does not decode is not acted upon, and the second of two fragments that
  arrive after an interruption starts when the first one ends, not at the current time.
\<close>

theorem interruption_counterexample:
  "fst (onmessage example_decoder example_interrupted_bad example_three) = Rejected
   \<and> audioPlaybackSources (snd (onmessage example_decoder example_interrupted_bad example_three)) =
       {0, 1, 2}
   \<and> nextStartTimeRef (snd (onmessage example_decoder example_interrupted_bad example_three)) = 6
   \<and> start_when (sources (snd (onmessage example_decoder
         (audio_message [(7, \<lparr>inlineData_data = Some (lit ''AA'')\<rparr>),
                         (7, \<lparr>inlineData_data = Some (lit ''AA'')\<rparr>)])
         (snd (onmessage example_decoder interruption_message example_three)))) ! 4) = 8"
proof -
  have a: "onmessage example_decoder example_interrupted_bad example_three =
      (Rejected, example_three)"
    by (simp add: example_interrupted_bad_def example_three_eq onmessage_def
        on_turnComplete_def on_outputTranscription_def on_inputTranscription_def play_part_def
        example_decoder_def lit_def Let_def)
  have b: "sources (snd (onmessage example_decoder
         (audio_message [(7, \<lparr>inlineData_data = Some (lit ''AA'')\<rparr>),
                         (7, \<lparr>inlineData_data = Some (lit ''AA'')\<rparr>)])
         (snd (onmessage example_decoder interruption_message example_three)))) =
      [\<lparr>start_when = 1 / 2, buffer_duration = 1, stopped = True\<rparr>,
       \<lparr>start_when = 3 / 2, buffer_duration = 1 / 2, stopped = True\<rparr>,
       \<lparr>start_when = 5, buffer_duration = 1, stopped = True\<rparr>,
       \<lparr>start_when = 7, buffer_duration = 1, stopped = False\<rparr>,
       \<lparr>start_when = 8, buffer_duration = 1, stopped = False\<rparr>]"
    by (simp add: example_interrupted_eq)
      (simp add: example_three_eq onmessage_def audio_message_def on_turnComplete_def
        on_outputTranscription_def on_inputTranscription_def play_part_def on_interrupted_def
        example_decoder_def duration_def lit_def Let_def)
  have c: "audioPlaybackSources example_three = {0, 1, 2}" "nextStartTimeRef example_three = 6"
    by (simp_all add: example_three_eq)
  have d: "[\<lparr>start_when = 1 / 2, buffer_duration = 1, stopped = True\<rparr>,
       \<lparr>start_when = 3 / 2, buffer_duration = 1 / 2, stopped = True\<rparr>,
       \<lparr>start_when = 5, buffer_duration = 1, stopped = True\<rparr>,
       \<lparr>start_when = 7, buffer_duration = 1, stopped = False\<rparr>,
       \<lparr>start_when = 8 :: real, buffer_duration = 1 :: real, stopped = False\<rparr>] ! 4 =
      \<lparr>start_when = 8, buffer_duration = 1, stopped = False\<rparr>"
    by (simp add: eval_nat_numeral)
  show ?thesis unfolding b d by (simp add: a c)
qed

end
